theory Spec2Isabelle
  imports Complex_Main "HOL-Library.Monad_Syntax"
begin

section \<open>Conventions of the embedding\<close>

text \<open>
  The repository is a set of Jupyter notebooks. Five of them are present:
  \<^item> the ellipse-approximation notebook (\<open>src/unnamed/part_001\<close>, first document),
    constants prefixed \<open>ell_\<close>;
  \<^item> the Gaussian initial-value notebook titled "Shear Dispersion Initial Value Problem
    Solution with Localized Initial Condition" (\<open>src/unnamed/part_001\<close>, second document),
    prefixed \<open>loc_\<close>;
  \<^item> the notebook titled "Plane Shear Dispersion with Localized Initial Condition"
    (\<open>src/unnamed/part_002\<close>), prefixed \<open>psd_\<close>;
  \<^item> the two documents of \<open>Adv_Diff_IVP_Animation_01.ipynb\<close> (single along-channel mode),
    prefixed \<open>sm1_\<close> and \<open>sm2_\<close>.

  The notebooks reuse the same variable names (\<open>N\<close>, \<open>M\<close>, \<open>Q\<close>, \<open>K\<close>, \<open>eps\<close>, ...)
  with different values, hence the prefixes. Python integers are \<^typ>\<open>int\<close> (or
  \<^typ>\<open>nat\<close> where they are lengths and indices), Python floats are idealised as exact
  reals and numpy complex numbers as \<^typ>\<open>complex\<close>: rounding, infinities and NaN results
  of float64 arithmetic are outside the model.
\<close>

section \<open>numpy helpers used by the parameter cells\<close>

text \<open>\<open>np.arange(start, stop, step)\<close> for a positive float step: \<open>ceil((stop - start) / step)\<close>
  samples \<open>start + i * step\<close>.\<close>

definition arange :: "real \<Rightarrow> real \<Rightarrow> real \<Rightarrow> real list" where
  "arange start stop step =
     map (\<lambda>i. start + real i * step) [0..<nat \<lceil>(stop - start) / step\<rceil>]"

text \<open>\<open>np.linspace(start, stop, num)\<close>: \<open>num\<close> evenly spaced samples, both ends included;
  the step is \<open>(stop - start) / (num - 1)\<close>.\<close>

definition linspace :: "real \<Rightarrow> real \<Rightarrow> nat \<Rightarrow> real list" where
  "linspace start stop num =
     map (\<lambda>i. start + real i * ((stop - start) / real (num - 1))) [0..<num]"

section \<open>Parameter cells\<close>

subsection \<open>Ellipse-approximation notebook\<close>


definition gamma :: "int list" where
  "gamma = [2, 26, 82]"

definition Delta :: "int list" where
  "Delta = [2, 10, 18]"

definition ell_N :: int where "ell_N = 70"
definition ell_alpha :: int where "ell_alpha = 2"
definition ell_eps :: real where "ell_eps = 3 / 100"

definition ell_K_test :: "real list" where
  "ell_K_test = linspace 0 (real_of_int ell_N / real_of_int ell_alpha) 1000"

text \<open>\<open>Q = (1j) * K_test / (8*eps)\<close>\<close>

definition ell_Q :: "complex list" where
  "ell_Q = map (\<lambda>k. \<i> * complex_of_real k / complex_of_real (8 * ell_eps)) ell_K_test"

definition ell_M :: int where "ell_M = 25"

subsection \<open>Localized initial condition (Gaussian) notebook\<close>

definition loc_alpha :: int where "loc_alpha = 25"
definition loc_Nk :: int where "loc_Nk = 50"
definition loc_Pe :: real where "loc_Pe = 200"

text \<open>\<open>K = np.arange(0, Nk / alpha, 1 / alpha)\<close>, \<open>Q = (1j) * 2 * K * Pe\<close>\<close>

definition loc_K :: "real list" where
  "loc_K = arange 0 (real_of_int loc_Nk / real_of_int loc_alpha) (1 / real_of_int loc_alpha)"

definition loc_Q :: "complex list" where
  "loc_Q = map (\<lambda>k. \<i> * 2 * complex_of_real k * complex_of_real loc_Pe) loc_K"

definition loc_N :: int where "loc_N = 50"

subsection \<open>Plane shear dispersion notebook\<close>

definition psd_N :: int where "psd_N = 50"
definition psd_alpha :: int where "psd_alpha = 2"
definition psd_eps :: real where "psd_eps = 5 / 100"

text \<open>\<open>K = np.arange(0, N / alpha, 1 / alpha)\<close>, \<open>Q = (1j) * 2 * K / eps\<close>\<close>

definition psd_K :: "real list" where
  "psd_K = arange 0 (real_of_int psd_N / real_of_int psd_alpha) (1 / real_of_int psd_alpha)"

definition psd_Q :: "complex list" where
  "psd_Q = map (\<lambda>k. \<i> * 2 * complex_of_real k / complex_of_real psd_eps) psd_K"

definition psd_M :: int where "psd_M = 75"

subsection \<open>Single-mode notebooks\<close>

text \<open>First document: \<open>eps = 0.05\<close>, \<open>k = 0.1\<close>, \<open>qf = 2 * k / eps\<close>,
  \<open>Q = np.linspace(0, qf, 100) * (1j)\<close>, \<open>N = 25\<close>.\<close>

definition sm1_eps :: real where "sm1_eps = 5 / 100"
definition sm1_k :: real where "sm1_k = 1 / 10"
definition sm1_qf :: real where "sm1_qf = 2 * sm1_k / sm1_eps"

definition sm1_Q :: "complex list" where
  "sm1_Q = map (\<lambda>x. complex_of_real x * \<i>) (linspace 0 sm1_qf 100)"

definition sm1_N :: int where "sm1_N = 25"

text \<open>Second document: \<open>alpha = 10\<close>, \<open>k = 1/alpha\<close>, \<open>Pe = 100\<close>, \<open>qf = 2 * k * Pe\<close>,
  \<open>Q = np.linspace(0, qf, 100) * (1j)\<close>, \<open>N = 25\<close>.\<close>

definition sm2_alpha :: int where "sm2_alpha = 10"
definition sm2_k :: real where "sm2_k = 1 / real_of_int sm2_alpha"
definition sm2_Pe :: real where "sm2_Pe = 100"
definition sm2_qf :: real where "sm2_qf = 2 * sm2_k * sm2_Pe"

definition sm2_Q :: "complex list" where
  "sm2_Q = map (\<lambda>x. complex_of_real x * \<i>) (linspace 0 sm2_qf 100)"

definition sm2_N :: int where "sm2_N = 25"

section \<open>Call sites of \<open>A_coefficients\<close>\<close>

text \<open>\<open>A_coefficients(Q, M, 'even', 'one')\<close> is imported from the external package
  \<open>mathieu_functions\<close>; only its call sites are part of the repository. A call is recorded
  with its four arguments as the notebook passes them.\<close>

record a_call =
  q_batch :: "complex list"
  matrix_size :: int
  parity :: string
  period :: string

definition ell_call :: a_call where
  "ell_call = \<lparr>q_batch = ell_Q, matrix_size = ell_M, parity = ''even'', period = ''one''\<rparr>"

definition loc_call :: a_call where
  "loc_call = \<lparr>q_batch = loc_Q, matrix_size = loc_N, parity = ''even'', period = ''one''\<rparr>"

definition psd_call :: a_call where
  "psd_call = \<lparr>q_batch = psd_Q, matrix_size = psd_M, parity = ''even'', period = ''one''\<rparr>"

definition sm1_call :: a_call where
  "sm1_call = \<lparr>q_batch = sm1_Q, matrix_size = sm1_N, parity = ''even'', period = ''one''\<rparr>"

definition sm2_call :: a_call where
  "sm2_call = \<lparr>q_batch = sm2_Q, matrix_size = sm2_N, parity = ''even'', period = ''one''\<rparr>"

definition A_coefficients_calls :: "a_call list" where
  "A_coefficients_calls = [ell_call, loc_call, psd_call, sm1_call, sm2_call]"

section \<open>The parameter-guard cells\<close>

text \<open>
  Four notebooks (all but the ellipse notebook) have the cell
  \<^verbatim>\<open>
  if qf > 1000:
      print('Value of parameter q is:', (qf * (1j)))
      raise Warning('Change either ...')
  print('Value of parameter q is:', (qf * (1j)))
  \<close>
  followed, in the single-mode notebooks, by a cell printing the mode of the initial
  condition, and then by the cell that calls \<open>A_coefficients\<close>. Running a notebook
  executes its cells in order and stops at the first cell that raises.
\<close>

datatype notebook = Ellipse | Localized | Plane_shear | Single_mode_1 | Single_mode_2

datatype exn = Warning string

datatype event = Print_q complex | Print_mode | Call_A_coefficients

type_synonym cell = "real \<Rightarrow> event list \<times> (exn + unit)"

definition qf_guard :: "string \<Rightarrow> cell" where
  "qf_guard msg qf =
     (if qf > 1000 then ([Print_q (complex_of_real qf * \<i>)], Inl (Warning msg))
      else ([Print_q (complex_of_real qf * \<i>)], Inr ()))"

definition print_mode_cell :: cell where
  "print_mode_cell qf = ([Print_mode], Inr ())"

definition call_cell :: cell where
  "call_cell qf = ([Call_A_coefficients], Inr ())"

definition msg_eps :: string where
  "msg_eps = ''Change either epsilon or k, to reduce the size of q. The current code only works for values q>1000i''"

definition msg_Pe :: string where
  "msg_Pe = ''Change either Pe or k, to reduce the size of q. The current code only works for values q<1000i''"

text \<open>The guard cell of a notebook, and the cells from the guard up to the call of
  \<open>A_coefficients\<close>. The ellipse notebook has no guard cell.\<close>

fun guard_of :: "notebook \<Rightarrow> cell option" where
  "guard_of Ellipse = None"
| "guard_of Localized = Some (qf_guard msg_eps)"
| "guard_of Plane_shear = Some (qf_guard msg_eps)"
| "guard_of Single_mode_1 = Some (qf_guard msg_eps)"
| "guard_of Single_mode_2 = Some (qf_guard msg_Pe)"

fun cells_from_guard :: "notebook \<Rightarrow> cell list" where
  "cells_from_guard Ellipse = [call_cell]"
| "cells_from_guard Localized = [qf_guard msg_eps, call_cell]"
| "cells_from_guard Plane_shear = [qf_guard msg_eps, call_cell]"
| "cells_from_guard Single_mode_1 = [qf_guard msg_eps, print_mode_cell, call_cell]"
| "cells_from_guard Single_mode_2 = [qf_guard msg_Pe, print_mode_cell, call_cell]"

fun run_cells :: "cell list \<Rightarrow> real \<Rightarrow> event list \<times> (exn + unit)" where
  "run_cells [] qf = ([], Inr ())"
| "run_cells (c # cs) qf =
     (case c qf of
        (out, Inl e) \<Rightarrow> (out, Inl e)
      | (out, Inr u) \<Rightarrow> (case run_cells cs qf of (out', r) \<Rightarrow> (out @ out', r)))"

definition guarded_notebooks :: "notebook list" where
  "guarded_notebooks = [Localized, Plane_shear, Single_mode_1, Single_mode_2]"

section \<open>Curve fits of the ellipse-approximation notebook\<close>

text \<open>
  The three cells "First/Second/Third Pair of Eigenvalues" set \<open>l\<close> to 0, 1, 2 and
  evaluate, elementwise over slices of \<open>Q\<close>, the fits below; \<open>q\<close> is one entry of the
  slice. \<open>np.sqrt\<close> of a complex array is the principal square root \<^const>\<open>csqrt\<close>.
\<close>






















section \<open>numpy arrays, Python objects and the store\<close>

text \<open>
  A numpy array is modelled by its shape and its element function; the elements outside
  the shape are not part of the array and are never read. All arrays hold complex numbers
  (a float array holds complex numbers with imaginary part 0). Operations on two arrays
  demand equal shapes; numpy's stretching of an axis of length one is not modelled and
  counts as a raised exception, like every other exception: a computation that raises has
  the value \<open>None\<close>.
\<close>

record arr1 =
  len1 :: nat
  at1 :: "nat \<Rightarrow> complex"

record arr2 =
  nrows :: nat
  ncols :: nat
  at2 :: "nat \<Rightarrow> nat \<Rightarrow> complex"

record arr3 =
  dim0 :: nat
  dim1 :: nat
  dim2 :: nat
  at3 :: "nat \<Rightarrow> nat \<Rightarrow> nat \<Rightarrow> complex"

text \<open>Python indexing of an axis of length \<open>n\<close>: a negative index counts from the end,
  an index out of range raises \<open>IndexError\<close>.\<close>

definition py_index :: "nat \<Rightarrow> int \<Rightarrow> nat option" where
  "py_index n i =
     (if 0 \<le> i \<and> i < int n then Some (nat i)
      else if - int n \<le> i \<and> i < 0 then Some (nat (int n + i))
      else None)"

text \<open>\<open>a[i]\<close>, \<open>A[i, c]\<close>, \<open>C[i, :, :]\<close> and \<open>xs[i]\<close> on a list.\<close>

definition index1 :: "arr1 \<Rightarrow> int \<Rightarrow> complex option" where
  "index1 a i = map_option (at1 a) (py_index (len1 a) i)"

definition index2 :: "arr2 \<Rightarrow> int \<Rightarrow> int \<Rightarrow> complex option" where
  "index2 A i c = do {
     i' \<leftarrow> py_index (nrows A) i;
     c' \<leftarrow> py_index (ncols A) c;
     Some (at2 A i' c')
   }"

definition plane :: "arr3 \<Rightarrow> int \<Rightarrow> arr2 option" where
  "plane C i = map_option (\<lambda>i'. \<lparr>nrows = dim1 C, ncols = dim2 C, at2 = at3 C i'\<rparr>)
     (py_index (dim0 C) i)"

definition list_index :: "'a list \<Rightarrow> int \<Rightarrow> 'a option" where
  "list_index xs i = map_option (nth xs) (py_index (length xs) i)"

text \<open>\<open>Y[:, 0]\<close> and \<open>X[0, :]\<close>.\<close>

definition column0 :: "arr2 \<Rightarrow> arr1 option" where
  "column0 Y = (if 0 < ncols Y then Some \<lparr>len1 = nrows Y, at1 = (\<lambda>j. at2 Y j 0)\<rparr> else None)"

definition row0 :: "arr2 \<Rightarrow> arr1 option" where
  "row0 X = (if 0 < nrows X then Some \<lparr>len1 = ncols X, at1 = at2 X 0\<rparr> else None)"

definition scale1 :: "complex \<Rightarrow> arr1 \<Rightarrow> arr1" where
  "scale1 c a = a\<lparr>at1 := (\<lambda>j. c * at1 a j)\<rparr>"

definition scale2 :: "complex \<Rightarrow> arr2 \<Rightarrow> arr2" where
  "scale2 c A = A\<lparr>at2 := (\<lambda>j l. c * at2 A j l)\<rparr>"

definition same_shape :: "arr2 \<Rightarrow> arr2 \<Rightarrow> bool" where
  "same_shape A B \<longleftrightarrow> nrows A = nrows B \<and> ncols A = ncols B"

definition add2 :: "arr2 \<Rightarrow> arr2 \<Rightarrow> arr2 option" where
  "add2 A B = (if same_shape A B then Some (A\<lparr>at2 := (\<lambda>j l. at2 A j l + at2 B j l)\<rparr>) else None)"

definition mul2 :: "arr2 \<Rightarrow> arr2 \<Rightarrow> arr2 option" where
  "mul2 A B = (if same_shape A B then Some (A\<lparr>at2 := (\<lambda>j l. at2 A j l * at2 B j l)\<rparr>) else None)"

text \<open>A value that is a Python scalar or a two-dimensional array: the builtin \<open>sum\<close>
  starts from the integer \<open>0\<close>, and \<open>np.sum\<close> of an empty list is the scalar \<open>0.0\<close>.\<close>

datatype val2 = Sc complex | Ar arr2

fun add_val :: "val2 \<Rightarrow> val2 \<Rightarrow> val2 option" where
  "add_val (Sc a) (Sc b) = Some (Sc (a + b))"
| "add_val (Sc a) (Ar B) = Some (Ar (B\<lparr>at2 := (\<lambda>j l. a + at2 B j l)\<rparr>))"
| "add_val (Ar A) (Sc b) = Some (Ar (A\<lparr>at2 := (\<lambda>j l. at2 A j l + b)\<rparr>))"
| "add_val (Ar A) (Ar B) = map_option Ar (add2 A B)"

text \<open>The builtin \<open>sum(xs)\<close>: \<open>py_sum (Sc 0) xs\<close>, adding from the left.\<close>

fun py_sum :: "val2 \<Rightarrow> val2 list \<Rightarrow> val2 option" where
  "py_sum acc [] = Some acc"
| "py_sum acc (x # xs) = do { acc' \<leftarrow> add_val acc x; py_sum acc' xs }"

text \<open>\<open>np.sum(coeff, axis=0)\<close> of a list of two-dimensional arrays: the list is stacked,
  which demands equal shapes, and summed along the new axis.\<close>

fun np_sum_axis0 :: "arr2 list \<Rightarrow> val2 option" where
  "np_sum_axis0 [] = Some (Sc 0)"
| "np_sum_axis0 (A # As) =
     (if \<forall>B\<in>set As. same_shape A B
      then Some (Ar (A\<lparr>at2 := (\<lambda>j l. sum_list (map (\<lambda>B. at2 B j l) (A # As)))\<rparr>))
      else None)"

text \<open>The element of a value at a grid point: a scalar stands for the array that holds
  it everywhere.\<close>

fun val_at :: "val2 \<Rightarrow> nat \<Rightarrow> nat \<Rightarrow> complex" where
  "val_at (Sc z) j l = z"
| "val_at (Ar A) j l = at2 A j l"

text \<open>\<open>.real\<close>, and the product with a float.\<close>

fun real_part :: "val2 \<Rightarrow> val2" where
  "real_part (Sc z) = Sc (complex_of_real (Re z))"
| "real_part (Ar A) = Ar (A\<lparr>at2 := (\<lambda>j l. complex_of_real (Re (at2 A j l)))\<rparr>)"

fun scale_val :: "complex \<Rightarrow> val2 \<Rightarrow> val2" where
  "scale_val c (Sc z) = Sc (c * z)"
| "scale_val c (Ar A) = Ar (scale2 c A)"

text \<open>\<open>str(n)\<close> for a non-negative integer.\<close>

definition digit_char :: "nat \<Rightarrow> char" where
  "digit_char d = ''0123456789'' ! d"

fun str :: "nat \<Rightarrow> string" where
  "str n = (if n < 10 then [digit_char n] else str (n div 10) @ [digit_char (n mod 10)])"

declare str.simps [simp del]

text \<open>
  The table \<open>As\<close> returned by \<open>A_coefficients\<close> is a dictionary: the key \<open>'a' + str(2 r)\<close>
  holds the eigenvalues of harmonic \<open>2 r\<close>, one per \<open>q\<close> (a vector), and the key
  \<open>'A' + str(2 r)\<close> its coefficient vectors, one row per \<open>q\<close> (a matrix).
\<close>

datatype entry = Vec arr1 | Mat arr2

type_synonym coeff_table = "string \<Rightarrow> entry option"

text \<open>\<open>As['A' + str(2*r)][i, 0]\<close> and \<open>As['a' + str(2*r)][i]\<close>.\<close>

definition lookup_A0 :: "coeff_table \<Rightarrow> nat \<Rightarrow> int \<Rightarrow> complex option" where
  "lookup_A0 As r i = do {
     e \<leftarrow> As (''A'' @ str (2 * r));
     case e of Mat A \<Rightarrow> index2 A i 0 | Vec v \<Rightarrow> None
   }"

definition lookup_a :: "coeff_table \<Rightarrow> nat \<Rightarrow> int \<Rightarrow> complex option" where
  "lookup_a As r i = do {
     e \<leftarrow> As (''a'' @ str (2 * r));
     case e of Vec v \<Rightarrow> index1 v i | Mat A \<Rightarrow> None
   }"

text \<open>The dataset \<open>ds\<close>: its three coordinates and the variable \<open>Theta\<close>, of shape
  (time, y, x), created full of \<open>np.nan\<close>.\<close>

datatype cellv = NaN | Val real

record dataset =
  coord_time :: arr1
  coord_y :: arr1
  coord_x :: arr1
  Theta :: "nat \<Rightarrow> nat \<Rightarrow> nat \<Rightarrow> cellv"

definition new_dataset :: "arr1 \<Rightarrow> arr1 \<Rightarrow> arr1 \<Rightarrow> dataset" where
  "new_dataset tc yc xc =
     \<lparr>coord_time = tc, coord_y = yc, coord_x = xc, Theta = (\<lambda>i j l. NaN)\<rparr>"

text \<open>\<open>ds['Theta'].data[i, :, :] = T0\<close>: a scalar fills the slice, an array must have the
  shape (y, x) of the slice.\<close>

fun store_slice :: "dataset \<Rightarrow> nat \<Rightarrow> val2 \<Rightarrow> dataset option" where
  "store_slice ds i (Sc z) =
     (if i < len1 (coord_time ds)
      then Some (ds\<lparr>Theta := (\<lambda>i' j l. if i' = i then Val (Re z) else Theta ds i' j l)\<rparr>)
      else None)"
| "store_slice ds i (Ar A) =
     (if i < len1 (coord_time ds) \<and> nrows A = len1 (coord_y ds) \<and> ncols A = len1 (coord_x ds)
      then Some (ds\<lparr>Theta := (\<lambda>i' j l. if i' = i then Val (Re (at2 A j l)) else Theta ds i' j l)\<rparr>)
      else None)"

text \<open>
  The objects a call of \<open>evolve_ds\<close> touches live in a store: a list of objects, the
  address of an object being its position. A new object is appended. Besides the store
  the state holds what \<open>print\<close> wrote, and the trace of the slice assignments: the pair
  \<open>(p, i)\<close> records one execution of \<open>ds['Theta'].data[i, :, :] = T0\<close> on the dataset at
  address \<open>p\<close>.
\<close>

datatype pyobj =
  Dict coeff_table
| ArrList3 "arr3 list"
| ArrList2 "arr2 list"
| FloatList "complex list"
| Array1 arr1
| Array2 arr2
| Dataset dataset

record state =
  heap :: "pyobj list"
  stdout :: "nat list"
  stores :: "(nat \<times> nat) list"

definition deref :: "state \<Rightarrow> nat \<Rightarrow> pyobj option" where
  "deref s p = (if p < length (heap s) then Some (heap s ! p) else None)"

definition get_dict :: "state \<Rightarrow> nat \<Rightarrow> coeff_table option" where
  "get_dict s p = (case deref s p of Some (Dict d) \<Rightarrow> Some d | _ \<Rightarrow> None)"

definition get_list3 :: "state \<Rightarrow> nat \<Rightarrow> arr3 list option" where
  "get_list3 s p = (case deref s p of Some (ArrList3 xs) \<Rightarrow> Some xs | _ \<Rightarrow> None)"

definition get_list2 :: "state \<Rightarrow> nat \<Rightarrow> arr2 list option" where
  "get_list2 s p = (case deref s p of Some (ArrList2 xs) \<Rightarrow> Some xs | _ \<Rightarrow> None)"

definition get_floats :: "state \<Rightarrow> nat \<Rightarrow> complex list option" where
  "get_floats s p = (case deref s p of Some (FloatList xs) \<Rightarrow> Some xs | _ \<Rightarrow> None)"

definition get_arr1 :: "state \<Rightarrow> nat \<Rightarrow> arr1 option" where
  "get_arr1 s p = (case deref s p of Some (Array1 a) \<Rightarrow> Some a | _ \<Rightarrow> None)"

definition get_arr2 :: "state \<Rightarrow> nat \<Rightarrow> arr2 option" where
  "get_arr2 s p = (case deref s p of Some (Array2 a) \<Rightarrow> Some a | _ \<Rightarrow> None)"

definition get_dataset :: "state \<Rightarrow> nat \<Rightarrow> dataset option" where
  "get_dataset s p = (case deref s p of Some (Dataset d) \<Rightarrow> Some d | _ \<Rightarrow> None)"

text \<open>Two states in which every name of an argument reads the same object.\<close>

definition same_args :: "state \<Rightarrow> state \<Rightarrow> bool" where
  "same_args s s' \<longleftrightarrow>
     get_dict s' = get_dict s \<and> get_list3 s' = get_list3 s \<and> get_list2 s' = get_list2 s \<and>
     get_floats s' = get_floats s \<and> get_arr1 s' = get_arr1 s \<and> get_arr2 s' = get_arr2 s"

definition alloc :: "pyobj \<Rightarrow> state \<Rightarrow> state \<times> nat" where
  "alloc obj s = (s\<lparr>heap := heap s @ [obj]\<rparr>, length (heap s))"

definition assign_slice :: "state \<Rightarrow> nat \<Rightarrow> nat \<Rightarrow> val2 \<Rightarrow> state option" where
  "assign_slice s p i T0 = do {
     ds \<leftarrow> get_dataset s p;
     ds' \<leftarrow> store_slice ds i T0;
     Some (s\<lparr>heap := (heap s)[p := Dataset ds'], stores := stores s @ [(p, i)]\<rparr>)
   }"

section \<open>The synthesis of the solution: \<open>evolve_ds\<close>\<close>

text \<open>
  Three notebooks define a function \<open>evolve_ds\<close>. The localized and the plane-shear
  notebooks sum over the wavenumbers \<open>K\<close> with the Fourier coefficients \<open>cn\<close>:
  \<^verbatim>\<open>
  def evolve_ds(As, CE, K, cn, sigma, X, Y, t):
      coords = {"time": t, "y": 2 * Y[:, 0], "x": X[0, :]}
      Temp = xr.DataArray(np.nan, coords=coords, dims=["time", 'y', 'x'])
      ds = xr.Dataset({'Theta': Temp})
      N = len(K)
      for i in range(len(t)):
          print(i)
          coeff=[]
          for k in range(N):
              CE2n = [2 * As['A'+str(2*r)][k, 0] * CE[r][k, :, :]
                        * np.exp(-(0.25*As['a'+str(2*r)][k] + K[k]**2)*t[i])
                      for r in range(len(CE))]
              CE2n = sum(CE2n) # r-sum
              coeff.append(cn[k] * CE2n * COS[k])
          T0 = np.sum(coeff, axis=0).real # k-sum
          ds['Theta'].data[i, :, :] = T0
      return ds
  \<close>
  This is the text of the localized notebook. The plane-shear notebook differs in three
  places: the coordinate is \<open>"y": Y[:, 0]\<close>, there is no \<open>print(i)\<close>, and the slice is
  \<open>T0 = (sigma**2)*np.sum(coeff, axis=0).real\<close>. \<open>COS\<close> is a global of the notebook.
\<close>

text \<open>One element of the list comprehension: the term of harmonic \<open>2 r\<close>.\<close>

definition harmonic_term ::
  "coeff_table \<Rightarrow> arr3 list \<Rightarrow> arr1 \<Rightarrow> arr1 \<Rightarrow> nat \<Rightarrow> nat \<Rightarrow> nat \<Rightarrow> arr2 option" where
  "harmonic_term As CE K t i k r = do {
     A0 \<leftarrow> lookup_A0 As r (int k);
     C \<leftarrow> list_index CE (int r);
     ce \<leftarrow> plane C (int k);
     ak \<leftarrow> lookup_a As r (int k);
     Kk \<leftarrow> index1 K (int k);
     ti \<leftarrow> index1 t (int i);
     Some (ce\<lparr>at2 := (\<lambda>j l. 2 * A0 * at2 ce j l * exp (- (25 / 100 * ak + Kk\<^sup>2) * ti))\<rparr>)
   }"

text \<open>The body of the loop over \<open>k\<close>: the element appended to \<open>coeff\<close>.\<close>

definition wavenumber_term ::
  "coeff_table \<Rightarrow> arr3 list \<Rightarrow> arr1 \<Rightarrow> complex list \<Rightarrow> arr2 list \<Rightarrow> arr1 \<Rightarrow> nat \<Rightarrow> nat
     \<Rightarrow> arr2 option" where
  "wavenumber_term As CE K cn COS t i k = do {
     terms \<leftarrow> those (map (harmonic_term As CE K t i k) [0..<length CE]);
     CE2n \<leftarrow> py_sum (Sc 0) (map Ar terms);
     c \<leftarrow> list_index cn (int k);
     cosk \<leftarrow> list_index COS (int k);
     case CE2n of
       Sc z \<Rightarrow> Some (scale2 (c * z) cosk)
     | Ar A \<Rightarrow> mul2 (scale2 c A) cosk
   }"

text \<open>The loop over \<open>k\<close> and \<open>np.sum(coeff, axis=0)\<close>.\<close>

definition k_sum ::
  "coeff_table \<Rightarrow> arr3 list \<Rightarrow> arr1 \<Rightarrow> complex list \<Rightarrow> arr2 list \<Rightarrow> arr1 \<Rightarrow> nat \<Rightarrow> nat
     \<Rightarrow> val2 option" where
  "k_sum As CE K cn COS t N i = do {
     coeff \<leftarrow> those (map (wavenumber_term As CE K cn COS t i) [0..<N]);
     np_sum_axis0 coeff
   }"

text \<open>
  The value \<open>T0\<close> of one pass of the loop over \<open>i\<close>, in a state: the names \<open>As\<close>, \<open>CE\<close>,
  \<open>K\<close>, \<open>cn\<close>, \<open>t\<close> and the global \<open>COS\<close> are addresses, read in the current state.
\<close>

definition loc_body ::
  "nat \<Rightarrow> nat \<Rightarrow> nat \<Rightarrow> nat \<Rightarrow> nat \<Rightarrow> nat \<Rightarrow> nat \<Rightarrow> state \<Rightarrow> nat \<Rightarrow> val2 option" where
  "loc_body COS As CE K cn t N s i = do {
     As_v \<leftarrow> get_dict s As;
     CE_v \<leftarrow> get_list3 s CE;
     K_v \<leftarrow> get_arr1 s K;
     cn_v \<leftarrow> get_floats s cn;
     COS_v \<leftarrow> get_list2 s COS;
     t_v \<leftarrow> get_arr1 s t;
     S \<leftarrow> k_sum As_v CE_v K_v cn_v COS_v t_v N i;
     Some (real_part S)
   }"

definition psd_body ::
  "nat \<Rightarrow> nat \<Rightarrow> nat \<Rightarrow> nat \<Rightarrow> nat \<Rightarrow> real \<Rightarrow> nat \<Rightarrow> nat \<Rightarrow> state \<Rightarrow> nat \<Rightarrow> val2 option" where
  "psd_body COS As CE K cn sigma t N s i = do {
     As_v \<leftarrow> get_dict s As;
     CE_v \<leftarrow> get_list3 s CE;
     K_v \<leftarrow> get_arr1 s K;
     cn_v \<leftarrow> get_floats s cn;
     COS_v \<leftarrow> get_list2 s COS;
     t_v \<leftarrow> get_arr1 s t;
     S \<leftarrow> k_sum As_v CE_v K_v cn_v COS_v t_v N i;
     Some (scale_val (complex_of_real (sigma\<^sup>2)) (real_part S))
   }"

text \<open>
  The loop \<open>for i in range(len(t))\<close>, over the list of the indices. \<open>pr\<close> says whether
  the pass starts with \<open>print(i)\<close>, \<open>body\<close> computes \<open>T0\<close>, \<open>p\<close> is the address of \<open>ds\<close>.
  The result is the last state, and whether the loop ran to its end (otherwise a pass
  has raised).
\<close>

fun time_loop ::
  "bool \<Rightarrow> (state \<Rightarrow> nat \<Rightarrow> val2 option) \<Rightarrow> nat \<Rightarrow> nat list \<Rightarrow> state \<Rightarrow> state \<times> bool" where
  "time_loop pr body p [] s = (s, True)"
| "time_loop pr body p (i # is) s =
     (let s1 = (if pr then s\<lparr>stdout := stdout s @ [i]\<rparr> else s) in
      case body s1 i of
        None \<Rightarrow> (s1, False)
      | Some T0 \<Rightarrow>
          (case assign_slice s1 p i T0 of
             None \<Rightarrow> (s1, False)
           | Some s2 \<Rightarrow> time_loop pr body p is s2))"

text \<open>The coordinates: \<open>t\<close>, \<open>c * Y[:, 0]\<close> and \<open>X[0, :]\<close>.\<close>

definition make_coords :: "state \<Rightarrow> complex \<Rightarrow> nat \<Rightarrow> nat \<Rightarrow> nat \<Rightarrow> (arr1 \<times> arr1 \<times> arr1) option" where
  "make_coords s c X Y t = do {
     t_v \<leftarrow> get_arr1 s t;
     Y_v \<leftarrow> get_arr2 s Y;
     yc \<leftarrow> column0 Y_v;
     X_v \<leftarrow> get_arr2 s X;
     xc \<leftarrow> row0 X_v;
     Some (t_v, scale1 c yc, xc)
   }"

text \<open>\<open>evolve_ds\<close> of the localized notebook. The first argument is the address of the
  global \<open>COS\<close>; the result is the final state and the address of the returned dataset,
  or \<open>None\<close> when the call raises.\<close>

definition evolve_ds_loc ::
  "nat \<Rightarrow> state \<Rightarrow> nat \<Rightarrow> nat \<Rightarrow> nat \<Rightarrow> nat \<Rightarrow> real \<Rightarrow> nat \<Rightarrow> nat \<Rightarrow> nat \<Rightarrow> state \<times> nat option" where
  "evolve_ds_loc COS s As CE K cn sigma X Y t =
     (case make_coords s 2 X Y t of
        None \<Rightarrow> (s, None)
      | Some (tc, yc, xc) \<Rightarrow>
          (case alloc (Dataset (new_dataset tc yc xc)) s of
             (s1, ds) \<Rightarrow>
               (case get_arr1 s1 K of
                  None \<Rightarrow> (s1, None)
                | Some K_v \<Rightarrow>
                    (case time_loop True (loc_body COS As CE K cn t (len1 K_v)) ds [0..<len1 tc] s1 of
                       (s2, ok) \<Rightarrow> (s2, if ok then Some ds else None)))))"

text \<open>\<open>evolve_ds\<close> of the plane-shear notebook.\<close>

definition evolve_ds_psd ::
  "nat \<Rightarrow> state \<Rightarrow> nat \<Rightarrow> nat \<Rightarrow> nat \<Rightarrow> nat \<Rightarrow> real \<Rightarrow> nat \<Rightarrow> nat \<Rightarrow> nat \<Rightarrow> state \<times> nat option" where
  "evolve_ds_psd COS s As CE K cn sigma X Y t =
     (case make_coords s 1 X Y t of
        None \<Rightarrow> (s, None)
      | Some (tc, yc, xc) \<Rightarrow>
          (case alloc (Dataset (new_dataset tc yc xc)) s of
             (s1, ds) \<Rightarrow>
               (case get_arr1 s1 K of
                  None \<Rightarrow> (s1, None)
                | Some K_v \<Rightarrow>
                    (case time_loop False (psd_body COS As CE K cn sigma t (len1 K_v)) ds
                            [0..<len1 tc] s1 of
                       (s2, ok) \<Rightarrow> (s2, if ok then Some ds else None)))))"

text \<open>
  \<open>evolve_ds\<close> of the single-mode notebook (second document) takes one wavenumber \<open>k\<close>
  and reads the last sample of the batch:
  \<^verbatim>\<open>
  def evolve_ds(As, CE, k, X, Y, t):
      coords = {"time": t, "y": 2 * Y[:, 0], "x": X[0, :]}
      Temp = xr.DataArray(np.nan, coords=coords, dims=["time", 'y', 'x'])
      ds = xr.Dataset({'Theta': Temp})
      for i in range(len(t)):
          CE2n = [2 * As['A'+str(2*r)][-1, 0] * CE[r][-1, :, :]
                    * np.exp(-(0.25*As['a'+str(2*r)][-1] + k**2)*t[i])
                  for r in range(len(CE))]
          CE2n = sum(CE2n) # r-sum
          T0 = (CE2n * np.exp((k * X) * (1j))).real # k-sum
          ds['Theta'].data[i, :, :] = T0
      return ds
  \<close>
\<close>

definition harmonic_term_last ::
  "coeff_table \<Rightarrow> arr3 list \<Rightarrow> real \<Rightarrow> arr1 \<Rightarrow> nat \<Rightarrow> nat \<Rightarrow> arr2 option" where
  "harmonic_term_last As CE k t i r = do {
     A0 \<leftarrow> lookup_A0 As r (- 1);
     C \<leftarrow> list_index CE (int r);
     ce \<leftarrow> plane C (- 1);
     ak \<leftarrow> lookup_a As r (- 1);
     ti \<leftarrow> index1 t (int i);
     Some (ce\<lparr>at2 := (\<lambda>j l. 2 * A0 * at2 ce j l
                          * exp (- (25 / 100 * ak + (complex_of_real k)\<^sup>2) * ti))\<rparr>)
   }"

definition sm2_body :: "nat \<Rightarrow> nat \<Rightarrow> real \<Rightarrow> nat \<Rightarrow> nat \<Rightarrow> state \<Rightarrow> nat \<Rightarrow> val2 option" where
  "sm2_body As CE k X t s i = do {
     As_v \<leftarrow> get_dict s As;
     CE_v \<leftarrow> get_list3 s CE;
     t_v \<leftarrow> get_arr1 s t;
     terms \<leftarrow> those (map (harmonic_term_last As_v CE_v k t_v i) [0..<length CE_v]);
     CE2n \<leftarrow> py_sum (Sc 0) (map Ar terms);
     X_v \<leftarrow> get_arr2 s X;
     W \<leftarrow> (let E = X_v\<lparr>at2 := (\<lambda>j l. exp (complex_of_real k * at2 X_v j l * \<i>))\<rparr> in
            case CE2n of Sc z \<Rightarrow> Some (scale2 z E) | Ar A \<Rightarrow> mul2 A E);
     Some (real_part (Ar W))
   }"

definition evolve_ds_sm2 ::
  "state \<Rightarrow> nat \<Rightarrow> nat \<Rightarrow> real \<Rightarrow> nat \<Rightarrow> nat \<Rightarrow> nat \<Rightarrow> state \<times> nat option" where
  "evolve_ds_sm2 s As CE k X Y t =
     (case make_coords s 2 X Y t of
        None \<Rightarrow> (s, None)
      | Some (tc, yc, xc) \<Rightarrow>
          (case alloc (Dataset (new_dataset tc yc xc)) s of
             (s1, ds) \<Rightarrow>
               (case time_loop False (sm2_body As CE k X t) ds [0..<len1 tc] s1 of
                  (s2, ok) \<Rightarrow> (s2, if ok then Some ds else None))))"

text \<open>The cell that defines the global:
  \<open>COS = [np.exp(K[i] * X *(1j)) for i in range(N)]\<close>.\<close>

definition COS_cell :: "arr1 \<Rightarrow> arr2 \<Rightarrow> nat \<Rightarrow> arr2 list option" where
  "COS_cell K X N =
     those (map (\<lambda>i. map_option (\<lambda>Ki. X\<lparr>at2 := (\<lambda>j l. exp (Ki * at2 X j l * \<i>))\<rparr>)
                        (index1 K (int i))) [0..<N])"

text \<open>The variable \<open>Theta\<close> of the dataset a call has returned, at one index.\<close>

definition returned_Theta :: "state \<times> nat option \<Rightarrow> nat \<Rightarrow> nat \<Rightarrow> nat \<Rightarrow> cellv option" where
  "returned_Theta res i j l =
     (case res of
        (s', Some p) \<Rightarrow> map_option (\<lambda>ds. Theta ds i j l) (get_dataset s' p)
      | (s', None) \<Rightarrow> None)"

subsection \<open>The effect of a call on the store\<close>



subsection \<open>The synthesis formula of the specification\<close>

text \<open>
  The entries of the tables the formula names: \<open>A\<^sup>(\<^sup>2\<^sup>r\<^sup>)\<^sub>0(q\<^sub>k)\<close> is entry \<open>[k, 0]\<close> of
  \<open>As['A' + str(2 r)]\<close>, \<open>a\<^sub>2\<^sub>r(q\<^sub>k)\<close> is entry \<open>[k]\<close> of \<open>As['a' + str(2 r)]\<close>, and
  \<open>ce\<^sub>2\<^sub>r(y; q\<^sub>k)\<close> at the grid point \<open>(j, l)\<close> is \<open>CE[r][k, j, l]\<close>; the abscissa \<open>x\<close> of that
  grid point is \<open>X[j, l]\<close>.
\<close>

definition coef_A0 :: "coeff_table \<Rightarrow> nat \<Rightarrow> nat \<Rightarrow> complex" where
  "coef_A0 As r k = (case As (''A'' @ str (2 * r)) of Some (Mat A) \<Rightarrow> at2 A k 0 | _ \<Rightarrow> 0)"

definition eig_a :: "coeff_table \<Rightarrow> nat \<Rightarrow> nat \<Rightarrow> complex" where
  "eig_a As r k = (case As (''a'' @ str (2 * r)) of Some (Vec v) \<Rightarrow> at1 v k | _ \<Rightarrow> 0)"

text \<open>The same entries at the last sample of \<open>q\<close> (index \<open>-1\<close>).\<close>

definition last_A0 :: "coeff_table \<Rightarrow> nat \<Rightarrow> complex" where
  "last_A0 As r =
     (case As (''A'' @ str (2 * r)) of Some (Mat A) \<Rightarrow> at2 A (nrows A - 1) 0 | _ \<Rightarrow> 0)"

definition last_a :: "coeff_table \<Rightarrow> nat \<Rightarrow> complex" where
  "last_a As r = (case As (''a'' @ str (2 * r)) of Some (Vec v) \<Rightarrow> at1 v (len1 v - 1) | _ \<Rightarrow> 0)"

text \<open>The sum over the harmonics for the wavenumber of index \<open>k\<close>.\<close>

definition inner_sum ::
  "coeff_table \<Rightarrow> arr3 list \<Rightarrow> arr1 \<Rightarrow> arr1 \<Rightarrow> nat \<Rightarrow> nat \<Rightarrow> nat \<Rightarrow> nat \<Rightarrow> complex" where
  "inner_sum As CE K t i k j l =
     (\<Sum>r<length CE. 2 * coef_A0 As r k * at3 (CE ! r) k j l
          * exp (- (eig_a As r k / 4 + (at1 K k)\<^sup>2) * at1 t i))"

text \<open>The double sum over the wavenumbers and the harmonics, before the real part is
  taken.\<close>

definition ivp_sum ::
  "coeff_table \<Rightarrow> arr3 list \<Rightarrow> arr1 \<Rightarrow> complex list \<Rightarrow> arr2 \<Rightarrow> arr1 \<Rightarrow> nat \<Rightarrow> nat \<Rightarrow> nat \<Rightarrow> complex" where
  "ivp_sum As CE K cn X t i j l =
     (\<Sum>k<len1 K. \<Sum>r<length CE.
        cn ! k * (2 * coef_A0 As r k) * at3 (CE ! r) k j l
          * exp (\<i> * at1 K k * at2 X j l)
          * exp (- (eig_a As r k / 4 + (at1 K k)\<^sup>2) * at1 t i))"

text \<open>The single sum over the harmonics for one wavenumber \<open>k\<close>, at the last sample of
  \<open>q\<close>.\<close>

definition mode_sum ::
  "coeff_table \<Rightarrow> arr3 list \<Rightarrow> real \<Rightarrow> arr2 \<Rightarrow> arr1 \<Rightarrow> nat \<Rightarrow> nat \<Rightarrow> nat \<Rightarrow> complex" where
  "mode_sum As CE k X t i j l =
     (\<Sum>r<length CE.
        2 * last_A0 As r * at3 (CE ! r) (dim0 (CE ! r) - 1) j l
          * exp (\<i> * complex_of_real k * at2 X j l)
          * exp (- (last_a As r / 4 + (complex_of_real k)\<^sup>2) * at1 t i))"

subsection \<open>Well-shaped arguments\<close>

text \<open>
  The shapes the notebooks give to the arguments. The grids \<open>X\<close> and \<open>Y\<close> come from
  \<open>np.meshgrid\<close> and are not empty; for each of the \<open>len(CE)\<close> harmonics the table \<open>As\<close>
  has the matrix \<open>'A' + str(2 r)\<close> and the vector \<open>'a' + str(2 r)\<close> with at least \<open>N\<close>
  samples of \<open>q\<close>, and \<open>CE[r]\<close> holds, for at least \<open>N\<close> samples, a grid of the shape of \<open>X\<close>.
\<close>

definition grid_ok :: "arr2 \<Rightarrow> arr2 \<Rightarrow> bool" where
  "grid_ok X Y \<longleftrightarrow> 0 < nrows X \<and> 0 < ncols Y \<and> nrows X = nrows Y"

definition tables_ok :: "coeff_table \<Rightarrow> arr3 list \<Rightarrow> nat \<Rightarrow> arr2 \<Rightarrow> bool" where
  "tables_ok As CE N X \<longleftrightarrow>
     (\<forall>r<length CE.
        (\<exists>A. As (''A'' @ str (2 * r)) = Some (Mat A) \<and> N \<le> nrows A \<and> 0 < ncols A) \<and>
        (\<exists>v. As (''a'' @ str (2 * r)) = Some (Vec v) \<and> N \<le> len1 v) \<and>
        N \<le> dim0 (CE ! r) \<and> dim1 (CE ! r) = nrows X \<and> dim2 (CE ! r) = ncols X)"

text \<open>A value that can be assigned to a slice of shape \<open>(ny, nx)\<close>.\<close>

fun shape_ok :: "nat \<Rightarrow> nat \<Rightarrow> val2 \<Rightarrow> bool" where
  "shape_ok ny nx (Sc z) = True"
| "shape_ok ny nx (Ar A) = (nrows A = ny \<and> ncols A = nx)"

subsection \<open>A small call\<close>

text \<open>
  A store on which the three functions are run below: two samples of \<open>q\<close> (wavenumbers
  \<open>0\<close> and \<open>1/2\<close>), two harmonics (keys \<open>A0\<close>, \<open>a0\<close>, \<open>A2\<close>, \<open>a2\<close>), a grid of one row
  and two columns with abscissae \<open>0\<close> and \<open>1\<close>, and the times \<open>0\<close> and \<open>1\<close>. The objects are
  at the addresses 0 (\<open>As\<close>), 1 (\<open>CE\<close>), 2 (\<open>K\<close>), 3 (\<open>cn\<close>), 4 (\<open>X\<close>), 5 (\<open>Y\<close>), 6 (\<open>t\<close>)
  and 7 (the global \<open>COS\<close>).
\<close>

definition ex_As :: coeff_table where
  "ex_As =
     [''A0'' \<mapsto> Mat \<lparr>nrows = 2, ncols = 1, at2 = (\<lambda>k c. if k = 0 then 1 / 2 else 1 / 4)\<rparr>,
      ''a0'' \<mapsto> Vec \<lparr>len1 = 2, at1 = (\<lambda>k. if k = 0 then 0 else 1)\<rparr>,
      ''A2'' \<mapsto> Mat \<lparr>nrows = 2, ncols = 1, at2 = (\<lambda>k c. if k = 0 then 1 / 4 else 1 / 2)\<rparr>,
      ''a2'' \<mapsto> Vec \<lparr>len1 = 2, at1 = (\<lambda>k. if k = 0 then 4 else 5)\<rparr>]"

definition ex_CE :: "arr3 list" where
  "ex_CE = [\<lparr>dim0 = 2, dim1 = 1, dim2 = 2, at3 = (\<lambda>k j l. 1)\<rparr>,
            \<lparr>dim0 = 2, dim1 = 1, dim2 = 2, at3 = (\<lambda>k j l. 2)\<rparr>]"

definition ex_K :: arr1 where
  "ex_K = \<lparr>len1 = 2, at1 = (\<lambda>k. if k = 0 then 0 else 1 / 2)\<rparr>"

definition ex_cn :: "complex list" where
  "ex_cn = [1, 1 / 2]"

definition ex_X :: arr2 where
  "ex_X = \<lparr>nrows = 1, ncols = 2, at2 = (\<lambda>j l. of_nat l)\<rparr>"

definition ex_Y :: arr2 where
  "ex_Y = \<lparr>nrows = 1, ncols = 2, at2 = (\<lambda>j l. 0)\<rparr>"

definition ex_t :: arr1 where
  "ex_t = \<lparr>len1 = 2, at1 = (\<lambda>i. of_nat i)\<rparr>"

definition ex_COS :: "arr2 list" where
  "ex_COS = [ex_X\<lparr>at2 := (\<lambda>j l. exp (0 * at2 ex_X j l * \<i>))\<rparr>,
             ex_X\<lparr>at2 := (\<lambda>j l. exp (1 / 2 * at2 ex_X j l * \<i>))\<rparr>]"

definition ex_state :: state where
  "ex_state =
     \<lparr>heap = [Dict ex_As, ArrList3 ex_CE, Array1 ex_K, FloatList ex_cn, Array2 ex_X, Array2 ex_Y,
              Array1 ex_t, ArrList2 ex_COS],
      stdout = [], stores = []\<rparr>"

section \<open>Factors written as decimal literals\<close>







section \<open>Hard-coded eigenvalue-pair constants\<close>

text \<open>C10: for every \<open>l\<close> in \<open>{0, 1, 2}\<close> the hard-coded constants of the ellipse notebook
  satisfy the closed forms of its introduction, \<open>Delta[l] = 8 l + 2\<close> and
  \<open>gamma[l] = 16 l\<^sup>2 + 8 l + 2\<close>.\<close>

theorem pair_constants_closed_form:
  "l \<in> {0, 1, 2} \<Longrightarrow>
     Delta ! l = 8 * int l + 2 \<and> gamma ! l = 16 * (int l)\<^sup>2 + 8 * int l + 2"
  by (auto simp: Delta_def gamma_def)

theorem pair_constants_closed_form_witness:
  "(2::nat) \<in> {0, 1, 2} \<and> Delta ! 2 = 8 * int 2 + 2 \<and> gamma ! 2 = 16 * (int 2)\<^sup>2 + 8 * int 2 + 2
   \<and> Delta ! 2 = 18 \<and> gamma ! 2 = 82"
  using pair_constants_closed_form [of 2] by (simp add: Delta_def gamma_def)

section \<open>Arguments of the \<open>A_coefficients\<close> calls\<close>

text \<open>C3 (as stated, refuted): the claim that every truncation order passed to
  \<open>A_coefficients\<close> is a positive even integer fails at the ellipse notebook, which
  passes \<open>M = 25\<close>.\<close>

theorem truncation_orders_not_all_even:
  "ell_call \<in> set A_coefficients_calls \<and>
   \<not> (0 < matrix_size ell_call \<and> even (matrix_size ell_call))"
  by (simp add: A_coefficients_calls_def ell_call_def ell_M_def)

text \<open>C3 (amended): every truncation order that the notebooks pass to \<open>A_coefficients\<close>
  is a positive integer, namely 25, 50, 75, 25 and 25 in the order ellipse, localized,
  plane shear, single mode (first and second document); only the 50 is even.\<close>

theorem truncation_orders_positive:
  "map matrix_size A_coefficients_calls = [25, 50, 75, 25, 25] \<and>
   (c \<in> set A_coefficients_calls \<longrightarrow> 0 < matrix_size c \<and> matrix_size c \<in> {25, 50, 75})"
  by (auto simp: A_coefficients_calls_def ell_call_def loc_call_def psd_call_def sm1_call_def
        sm2_call_def ell_M_def loc_N_def psd_M_def sm1_N_def sm2_N_def)

theorem truncation_orders_positive_witness:
  "psd_call \<in> set A_coefficients_calls \<and> 0 < matrix_size psd_call \<and>
   matrix_size psd_call \<in> {25, 50, 75} \<and> matrix_size psd_call = 75"
  using truncation_orders_positive [of psd_call]
  by (simp add: A_coefficients_calls_def psd_call_def psd_M_def)

text \<open>C5: every call of \<open>A_coefficients\<close> in the notebooks passes the parity selector
  \<open>'even'\<close> and the period selector \<open>'one'\<close>; no call passes another member of the
  selector set.\<close>

theorem selectors_even_one:
  "c \<in> set A_coefficients_calls \<Longrightarrow> parity c = ''even'' \<and> period c = ''one''"
  by (auto simp: A_coefficients_calls_def ell_call_def loc_call_def psd_call_def sm1_call_def
        sm2_call_def)

theorem selectors_even_one_witness:
  "loc_call \<in> set A_coefficients_calls \<and> parity loc_call = ''even'' \<and> period loc_call = ''one''"
  using selectors_even_one [of loc_call]
  by (simp add: A_coefficients_calls_def)

section \<open>The batches of Mathieu parameters\<close>

lemma ramp_props:
  assumes f: "\<And>i. i < n \<Longrightarrow> Re (f i) = 0 \<and> cmod (f i) = real i * c" and c: "0 < c"
  shows "(\<forall>q\<in>set (map f [0..<n]). Re q = 0) \<and> sorted_wrt (<) (map cmod (map f [0..<n]))"
proof
  show "\<forall>q\<in>set (map f [0..<n]). Re q = 0" using f by auto
  have "sorted_wrt (\<lambda>i j. cmod (f i) < cmod (f j)) [0..<n]"
  proof (rule sorted_wrt_mono_rel [OF _ sorted_wrt_upt])
    fix i j assume "i \<in> set [0..<n]" "j \<in> set [0..<n]" "i < j"
    then show "cmod (f i) < cmod (f j)" using f c by simp
  qed
  then show "sorted_wrt (<) (map cmod (map f [0..<n]))"
    by (simp add: sorted_wrt_map)
qed

lemma ramp_imag:
  "0 < c \<Longrightarrow> (\<forall>q\<in>set (map (\<lambda>i. \<i> * complex_of_real (real i * c)) [0..<n]). Re q = 0) \<and>
     sorted_wrt (<) (map cmod (map (\<lambda>i. \<i> * complex_of_real (real i * c)) [0..<n]))"
  by (rule ramp_props [where c = c]) (simp_all add: norm_mult)

text \<open>The wavenumber arrays and batches in closed form.\<close>

lemma psd_K_eq: "psd_K = map (\<lambda>i. real i / 2) [0..<50]"
  by (simp add: psd_K_def arange_def psd_N_def psd_alpha_def)

lemma loc_K_eq: "loc_K = map (\<lambda>i. real i / 25) [0..<50]"
  by (simp add: loc_K_def arange_def loc_Nk_def loc_alpha_def)

lemma ell_K_test_eq: "ell_K_test = map (\<lambda>i. real i * (35 / 999)) [0..<1000]"
  by (simp add: ell_K_test_def linspace_def ell_N_def ell_alpha_def)

lemma psd_Q_eq: "psd_Q = map (\<lambda>i. \<i> * complex_of_real (real i * 20)) [0..<50]"
  by (simp add: psd_Q_def psd_K_eq psd_eps_def o_def)

lemma loc_Q_eq: "loc_Q = map (\<lambda>i. \<i> * complex_of_real (real i * 16)) [0..<50]"
  by (simp add: loc_Q_def loc_K_eq loc_Pe_def o_def)

lemma ell_Q_eq:
  "ell_Q = map (\<lambda>i. \<i> * complex_of_real (real i * (35 / 999 / (24 / 100)))) [0..<1000]"
  by (simp add: ell_Q_def ell_K_test_eq ell_eps_def o_def)

lemma sm1_Q_eq: "sm1_Q = map (\<lambda>i. \<i> * complex_of_real (real i * (4 / 99))) [0..<100]"
  by (simp add: sm1_Q_def linspace_def sm1_qf_def sm1_k_def sm1_eps_def o_def)

lemma sm2_Q_eq: "sm2_Q = map (\<lambda>i. \<i> * complex_of_real (real i * (20 / 99))) [0..<100]"
  by (simp add: sm2_Q_def linspace_def sm2_qf_def sm2_k_def sm2_Pe_def sm2_alpha_def o_def)

lemma batches_imaginary_ascending:
  "c \<in> set A_coefficients_calls \<Longrightarrow>
     (\<forall>q\<in>set (q_batch c). Re q = 0) \<and> sorted_wrt (<) (map cmod (q_batch c))"
proof -
  assume "c \<in> set A_coefficients_calls"
  then consider "q_batch c = ell_Q" | "q_batch c = loc_Q" | "q_batch c = psd_Q"
    | "q_batch c = sm1_Q" | "q_batch c = sm2_Q"
    by (auto simp: A_coefficients_calls_def ell_call_def loc_call_def psd_call_def sm1_call_def
          sm2_call_def)
  then show ?thesis
  proof cases
    case 1 then show ?thesis using ramp_imag [of "35 / 999 / (24 / 100)" 1000]
      by (simp only: ell_Q_eq) simp
  next
    case 2 then show ?thesis using ramp_imag [of 16 50] by (simp only: loc_Q_eq) simp
  next
    case 3 then show ?thesis using ramp_imag [of 20 50] by (simp only: psd_Q_eq) simp
  next
    case 4 then show ?thesis using ramp_imag [of "4 / 99" 100] by (simp only: sm1_Q_eq) simp
  next
    case 5 then show ?thesis using ramp_imag [of "20 / 99" 100] by (simp only: sm2_Q_eq) simp
  qed
qed

text \<open>C4 (as stated, refuted): in the ellipse notebook the batch is not the image of the
  wavenumber array under \<open>q = i 2 k / eps\<close>: its entry 1 is \<open>i K_test[1] / (8 eps)\<close>.\<close>

theorem ell_Q_not_two_k_over_eps:
  "ell_Q ! 1 \<noteq> \<i> * 2 * complex_of_real (ell_K_test ! 1) / complex_of_real ell_eps \<and>
   ell_Q \<noteq> map (\<lambda>k. \<i> * 2 * complex_of_real k / complex_of_real ell_eps) ell_K_test"
proof -
  have len: "(1::nat) < length ell_K_test" by (simp add: ell_K_test_eq)
  have ne: "ell_Q ! 1 \<noteq> \<i> * 2 * complex_of_real (ell_K_test ! 1) / complex_of_real ell_eps"
    by (simp add: ell_Q_def ell_K_test_eq ell_eps_def)
  moreover have "ell_Q \<noteq> map (\<lambda>k. \<i> * 2 * complex_of_real k / complex_of_real ell_eps) ell_K_test"
  proof
    assume "ell_Q = map (\<lambda>k. \<i> * 2 * complex_of_real k / complex_of_real ell_eps) ell_K_test"
    then have "ell_Q ! 1 = map (\<lambda>k. \<i> * 2 * complex_of_real k / complex_of_real ell_eps) ell_K_test ! 1"
      by simp
    with len ne show False by simp
  qed
  ultimately show ?thesis by blast
qed

text \<open>C4 (amended): the plane-shear notebook computes \<open>Q = i 2 K / eps\<close> and the
  localized notebook \<open>Q = i 2 K Pe\<close> from the wavenumber array \<open>K\<close>; the ellipse notebook
  computes \<open>Q = i K_test / (8 eps)\<close>; the single-mode notebooks take 100 evenly spaced
  samples from \<open>0\<close> to \<open>i qf\<close>, where \<open>qf = 2 k / eps\<close> (first document) or \<open>qf = 2 k Pe\<close>
  (second document) is the last entry. In every notebook each entry of the batch is purely
  imaginary and the magnitudes increase strictly along the batch.\<close>

theorem Q_batches:
  "psd_Q = map (\<lambda>k. \<i> * 2 * complex_of_real k / complex_of_real psd_eps) psd_K \<and>
   loc_Q = map (\<lambda>k. \<i> * 2 * complex_of_real k * complex_of_real loc_Pe) loc_K \<and>
   ell_Q = map (\<lambda>k. \<i> * complex_of_real k / complex_of_real (8 * ell_eps)) ell_K_test \<and>
   sm1_Q = map (\<lambda>x. complex_of_real x * \<i>) (linspace 0 (2 * sm1_k / sm1_eps) 100) \<and>
   sm2_Q = map (\<lambda>x. complex_of_real x * \<i>) (linspace 0 (2 * sm2_k * sm2_Pe) 100) \<and>
   last sm1_Q = \<i> * complex_of_real (2 * sm1_k / sm1_eps) \<and>
   last sm2_Q = \<i> * complex_of_real (2 * sm2_k * sm2_Pe) \<and>
   (c \<in> set A_coefficients_calls \<longrightarrow>
      (\<forall>q\<in>set (q_batch c). Re q = 0) \<and> sorted_wrt (<) (map cmod (q_batch c)))"
proof -
  have "last sm1_Q = \<i> * complex_of_real (2 * sm1_k / sm1_eps)"
    by (simp add: sm1_Q_eq last_map sm1_k_def sm1_eps_def)
  moreover have "last sm2_Q = \<i> * complex_of_real (2 * sm2_k * sm2_Pe)"
    by (simp add: sm2_Q_eq last_map sm2_k_def sm2_Pe_def sm2_alpha_def)
  ultimately show ?thesis
    using batches_imaginary_ascending [of c]
    by (simp add: psd_Q_def loc_Q_def ell_Q_def sm1_Q_def sm2_Q_def sm1_qf_def sm2_qf_def)
qed

theorem Q_batches_witness:
  "psd_call \<in> set A_coefficients_calls \<and> Re (psd_Q ! 3) = 0 \<and> psd_Q ! 3 = 60 * \<i> \<and>
   cmod (psd_Q ! 3) < cmod (psd_Q ! 4) \<and> sorted_wrt (<) (map cmod (q_batch psd_call))"
proof -
  have m: "psd_call \<in> set A_coefficients_calls" by (simp add: A_coefficients_calls_def)
  have "sorted_wrt (<) (map cmod (q_batch psd_call))"
    using Q_batches [of psd_call] m by blast
  moreover have "Re (psd_Q ! 3) = 0" "psd_Q ! 3 = 60 * \<i>" "cmod (psd_Q ! 3) < cmod (psd_Q ! 4)"
    by (simp_all add: psd_Q_eq norm_mult)
  ultimately show ?thesis using m by blast
qed

section \<open>The guard on the largest Mathieu parameter\<close>

text \<open>C9: in each notebook that has the parameter-guard cell, an exception of class
  \<open>Warning\<close> is raised if and only if \<open>qf\<close> is strictly greater than 1000; for
  \<open>qf \<le> 1000\<close>, 1000 included, nothing is raised and execution reaches the call of
  \<open>A_coefficients\<close>.\<close>

theorem qf_guard_threshold:
  "nb \<in> set guarded_notebooks \<Longrightarrow>
     (\<exists>g. guard_of nb = Some g \<and>
        ((\<exists>w. snd (g qf) = Inl (Warning w)) \<longleftrightarrow> 1000 < qf) \<and>
        (qf \<le> 1000 \<longrightarrow> snd (g qf) = Inr ())) \<and>
     ((\<exists>w. snd (run_cells (cells_from_guard nb) qf) = Inl (Warning w)) \<longleftrightarrow> 1000 < qf) \<and>
     (Call_A_coefficients \<in> set (fst (run_cells (cells_from_guard nb) qf)) \<longleftrightarrow> qf \<le> 1000)"
  by (auto simp: guarded_notebooks_def qf_guard_def print_mode_cell_def call_cell_def
       split: if_splits)

theorem qf_guard_threshold_witness:
  "Plane_shear \<in> set guarded_notebooks \<and>
   snd (run_cells (cells_from_guard Plane_shear) 1000) = Inr () \<and>
   Call_A_coefficients \<in> set (fst (run_cells (cells_from_guard Plane_shear) 1000)) \<and>
   (\<exists>w. snd (run_cells (cells_from_guard Plane_shear) 1001) = Inl (Warning w)) \<and>
   Call_A_coefficients \<notin> set (fst (run_cells (cells_from_guard Plane_shear) 1001))"
  using qf_guard_threshold [of Plane_shear 1000] qf_guard_threshold [of Plane_shear 1001]
  by (simp add: guarded_notebooks_def qf_guard_def call_cell_def)

section \<open>Multipliers of the curve fits\<close>












section \<open>Correctness of \<open>evolve_ds\<close>\<close>

subsection \<open>Lists of results, indices and sums\<close>

lemma those_map_Some:
  "those (map f xs) = Some ys \<Longrightarrow>
     length ys = length xs \<and> (\<forall>n<length xs. f (xs ! n) = Some (ys ! n))"
proof (induction xs arbitrary: ys)
  case Nil
  then show ?case by simp
next
  case (Cons x xs)
  then obtain y zs where y: "f x = Some y" and zs: "those (map f xs) = Some zs" and ys: "ys = y # zs"
    by (auto split: option.splits)
  from Cons.IH [OF zs] y ys show ?case
    by (auto simp: nth_Cons split: nat.splits)
qed

lemma py_index_int: "py_index n (int k) = Some k' \<Longrightarrow> k' = k \<and> k < n"
  by (auto simp: py_index_def split: if_splits)

lemma py_index_last: "py_index n (- 1) = Some k' \<Longrightarrow> k' = n - 1 \<and> 0 < n"
  by (auto simp: py_index_def split: if_splits)

lemma add_val_at: "add_val a b = Some c \<Longrightarrow> val_at c j l = val_at a j l + val_at b j l"
  by (cases a; cases b) (auto simp: add2_def split: if_splits)

lemma py_sum_at:
  "py_sum acc vs = Some v \<Longrightarrow> val_at v j l = val_at acc j l + (\<Sum>x\<leftarrow>vs. val_at x j l)"
proof (induction vs arbitrary: acc)
  case Nil
  then show ?case by simp
next
  case (Cons x xs)
  then obtain acc' where a: "add_val acc x = Some acc'" and r: "py_sum acc' xs = Some v"
    by (auto simp: bind_eq_Some_conv)
  from Cons.IH [OF r] add_val_at [OF a, of j l] show ?case by simp
qed

lemma np_sum_axis0_at: "np_sum_axis0 Ws = Some S \<Longrightarrow> val_at S j l = (\<Sum>W\<leftarrow>Ws. at2 W j l)"
  by (cases Ws) (auto split: if_splits)

lemma lookup_A0_Some:
  assumes "lookup_A0 As r i = Some z"
  shows "\<exists>A k'. As (''A'' @ str (2 * r)) = Some (Mat A) \<and> py_index (nrows A) i = Some k' \<and>
           0 < ncols A \<and> z = at2 A k' 0"
proof -
  from assms obtain e where e: "As (''A'' @ str (2 * r)) = Some e"
    and c: "(case e of Mat A \<Rightarrow> index2 A i 0 | Vec v \<Rightarrow> None) = Some z"
    by (auto simp: lookup_A0_def bind_eq_Some_conv)
  from c obtain A where A: "e = Mat A" and ix: "index2 A i 0 = Some z"
    by (cases e) auto
  from ix obtain k' c' where "py_index (nrows A) i = Some k'" "py_index (ncols A) 0 = Some c'"
    "z = at2 A k' c'"
    by (auto simp: index2_def bind_eq_Some_conv)
  moreover from this have "c' = 0 \<and> 0 < ncols A" by (auto simp: py_index_def split: if_splits)
  ultimately show ?thesis using e A by auto
qed

lemma lookup_a_Some:
  assumes "lookup_a As r i = Some z"
  shows "\<exists>v k'. As (''a'' @ str (2 * r)) = Some (Vec v) \<and> py_index (len1 v) i = Some k' \<and>
           z = at1 v k'"
proof -
  from assms obtain e where e: "As (''a'' @ str (2 * r)) = Some e"
    and c: "(case e of Vec v \<Rightarrow> index1 v i | Mat A \<Rightarrow> None) = Some z"
    by (auto simp: lookup_a_def bind_eq_Some_conv)
  from c obtain v where v: "e = Vec v" and ix: "index1 v i = Some z"
    by (cases e) auto
  from ix obtain k' where "py_index (len1 v) i = Some k'" "z = at1 v k'"
    by (auto simp: index1_def)
  then show ?thesis using e v by auto
qed

lemma lookup_A0_int: "lookup_A0 As r (int k) = Some z \<Longrightarrow> z = coef_A0 As r k"
  by (auto simp: coef_A0_def dest!: lookup_A0_Some py_index_int)

lemma lookup_a_int: "lookup_a As r (int k) = Some z \<Longrightarrow> z = eig_a As r k"
  by (auto simp: eig_a_def dest!: lookup_a_Some py_index_int)

lemma lookup_A0_last: "lookup_A0 As r (- 1) = Some z \<Longrightarrow> z = last_A0 As r"
  by (auto simp: last_A0_def dest!: lookup_A0_Some py_index_last)

lemma lookup_a_last: "lookup_a As r (- 1) = Some z \<Longrightarrow> z = last_a As r"
  by (auto simp: last_a_def dest!: lookup_a_Some py_index_last)

lemma harmonic_term_at:
  assumes "harmonic_term As CE K t i k r = Some T"
  shows "at2 T j l = 2 * coef_A0 As r k * at3 (CE ! r) k j l
           * exp (- (eig_a As r k / 4 + (at1 K k)\<^sup>2) * at1 t i)"
proof -
  from assms obtain A0 C ce ak Kk ti where
    A0: "lookup_A0 As r (int k) = Some A0" and C: "list_index CE (int r) = Some C"
    and ce: "plane C (int k) = Some ce" and ak: "lookup_a As r (int k) = Some ak"
    and Kk: "index1 K (int k) = Some Kk" and ti: "index1 t (int i) = Some ti"
    and T: "T = ce\<lparr>at2 := (\<lambda>j l. 2 * A0 * at2 ce j l * exp (- (25 / 100 * ak + Kk\<^sup>2) * ti))\<rparr>"
    by (auto simp: harmonic_term_def bind_eq_Some_conv)
  have "C = CE ! r" using C by (auto simp: list_index_def dest!: py_index_int)
  moreover have "at2 ce j l = at3 C k j l" using ce by (auto simp: plane_def dest!: py_index_int)
  moreover have "Kk = at1 K k" using Kk by (auto simp: index1_def dest!: py_index_int)
  moreover have "ti = at1 t i" using ti by (auto simp: index1_def dest!: py_index_int)
  ultimately show ?thesis
    using lookup_A0_int [OF A0] lookup_a_int [OF ak] T by simp
qed

lemma sum_list_upt_sum: "(\<Sum>x\<leftarrow>map f [0..<n]. g x) = (\<Sum>k<n. g (f k))" for g :: "'a \<Rightarrow> complex"
proof -
  have "(\<Sum>x\<leftarrow>map f [0..<n]. g x) = (\<Sum>k\<leftarrow>[0..<n]. g (f k))" by (simp add: o_def)
  also have "\<dots> = (\<Sum>k<n. g (f k))"
    by (simp add: interv_sum_list_conv_sum_set_nat lessThan_atLeast0)
  finally show ?thesis .
qed

lemma those_sum:
  fixes g :: "'a \<Rightarrow> complex"
  assumes "those (map f [0..<n]) = Some ys"
  shows "(\<Sum>y\<leftarrow>ys. g y) = (\<Sum>k<n. g (the (f k)))"
proof -
  from those_map_Some [OF assms] have len: "length ys = n"
    and nth: "\<And>k. k < n \<Longrightarrow> f k = Some (ys ! k)" by auto
  have "ys = map (\<lambda>k. the (f k)) [0..<n]"
    by (rule nth_equalityI) (simp_all add: len nth)
  then have "(\<Sum>y\<leftarrow>ys. g y) = (\<Sum>y\<leftarrow>map (\<lambda>k. the (f k)) [0..<n]. g y)" by simp
  then show ?thesis by (simp only: sum_list_upt_sum)
qed

subsection \<open>The loops over the harmonics and the wavenumbers\<close>

lemma harmonic_terms_sum:
  assumes "those (map (harmonic_term As CE K t i k) [0..<length CE]) = Some terms"
  shows "(\<Sum>x\<leftarrow>map Ar terms. val_at x j l) = inner_sum As CE K t i k j l"
proof -
  from those_map_Some [OF assms]
  have nth: "\<And>r. r < length CE \<Longrightarrow> harmonic_term As CE K t i k r = Some (terms ! r)" by auto
  have "(\<Sum>x\<leftarrow>map Ar terms. val_at x j l) = (\<Sum>T\<leftarrow>terms. at2 T j l)"
    by (simp add: o_def)
  also have "\<dots> = (\<Sum>r<length CE. at2 (the (harmonic_term As CE K t i k r)) j l)"
    by (rule those_sum [OF assms])
  also have "\<dots> = inner_sum As CE K t i k j l"
    unfolding inner_sum_def
  proof (rule sum.cong)
    fix r assume "r \<in> {..<length CE}"
    then have h: "harmonic_term As CE K t i k r = Some (terms ! r)" using nth by simp
    from harmonic_term_at [OF h, of j l] h
    show "at2 (the (harmonic_term As CE K t i k r)) j l =
            2 * coef_A0 As r k * at3 (CE ! r) k j l
              * exp (- (eig_a As r k / 4 + (at1 K k)\<^sup>2) * at1 t i)"
      by (simp only: option.sel)
  qed simp
  finally show ?thesis .
qed

lemma wavenumber_term_at:
  assumes "wavenumber_term As CE K cn COS t i k = Some W"
  shows "at2 W j l = cn ! k * inner_sum As CE K t i k j l * at2 (COS ! k) j l"
proof -
  from assms obtain terms CE2n c cosk where
    terms: "those (map (harmonic_term As CE K t i k) [0..<length CE]) = Some terms"
    and CE2n: "py_sum (Sc 0) (map Ar terms) = Some CE2n"
    and c: "list_index cn (int k) = Some c" and cosk: "list_index COS (int k) = Some cosk"
    and W: "(case CE2n of Sc z \<Rightarrow> Some (scale2 (c * z) cosk) | Ar A \<Rightarrow> mul2 (scale2 c A) cosk) = Some W"
    by (auto simp: wavenumber_term_def bind_eq_Some_conv)
  have v: "val_at CE2n j l = inner_sum As CE K t i k j l"
    using py_sum_at [OF CE2n, of j l] harmonic_terms_sum [OF terms, of j l] by simp
  have c': "c = cn ! k" using c by (auto simp: list_index_def dest!: py_index_int)
  have cos': "cosk = COS ! k" using cosk by (auto simp: list_index_def dest!: py_index_int)
  have "at2 W j l = c * val_at CE2n j l * at2 cosk j l"
    using W by (cases CE2n) (auto simp: scale2_def mul2_def split: if_splits)
  then show ?thesis by (simp add: v c' cos')
qed

lemma k_sum_at:
  assumes "k_sum As CE K cn COS t N i = Some S"
  shows "val_at S j l = (\<Sum>k<N. cn ! k * inner_sum As CE K t i k j l * at2 (COS ! k) j l)"
proof -
  from assms obtain coeff where
    coeff: "those (map (wavenumber_term As CE K cn COS t i) [0..<N]) = Some coeff"
    and S: "np_sum_axis0 coeff = Some S"
    by (auto simp: k_sum_def bind_eq_Some_conv)
  from those_map_Some [OF coeff]
  have nth: "\<And>k. k < N \<Longrightarrow> wavenumber_term As CE K cn COS t i k = Some (coeff ! k)" by auto
  have "val_at S j l = (\<Sum>W\<leftarrow>coeff. at2 W j l)" by (rule np_sum_axis0_at [OF S])
  also have "\<dots> = (\<Sum>k<N. at2 (the (wavenumber_term As CE K cn COS t i k)) j l)"
    by (rule those_sum [OF coeff])
  also have "\<dots> = (\<Sum>k<N. cn ! k * inner_sum As CE K t i k j l * at2 (COS ! k) j l)"
  proof (rule sum.cong)
    fix k assume "k \<in> {..<N}"
    then have h: "wavenumber_term As CE K cn COS t i k = Some (coeff ! k)" using nth by simp
    from wavenumber_term_at [OF h, of j l] h
    show "at2 (the (wavenumber_term As CE K cn COS t i k)) j l =
            cn ! k * inner_sum As CE K t i k j l * at2 (COS ! k) j l"
      by (simp only: option.sel)
  qed simp
  finally show ?thesis .
qed

lemma k_sum_wavenumbers:
  assumes "k_sum As CE K cn COS t N i = Some S" and "k < N"
  shows "k < length COS"
proof -
  from assms obtain coeff where
    coeff: "those (map (wavenumber_term As CE K cn COS t i) [0..<N]) = Some coeff"
    by (auto simp: k_sum_def bind_eq_Some_conv)
  from those_map_Some [OF coeff] \<open>k < N\<close>
  have "wavenumber_term As CE K cn COS t i k = Some (coeff ! k)" by auto
  then obtain cosk where "list_index COS (int k) = Some cosk"
    by (auto simp: wavenumber_term_def bind_eq_Some_conv)
  then show ?thesis by (auto simp: list_index_def dest!: py_index_int)
qed

lemma COS_cell_at:
  assumes "COS_cell K X n = Some COS" and "k < length COS"
  shows "at2 (COS ! k) j l = exp (\<i> * at1 K k * at2 X j l)"
proof -
  from those_map_Some [OF assms(1) [unfolded COS_cell_def]] assms(2)
  have "map_option (\<lambda>Ki. X\<lparr>at2 := (\<lambda>j l. exp (Ki * at2 X j l * \<i>))\<rparr>) (index1 K (int k))
          = Some (COS ! k)"
    by auto
  then obtain Ki where Ki: "index1 K (int k) = Some Ki"
    and C: "COS ! k = X\<lparr>at2 := (\<lambda>j l. exp (Ki * at2 X j l * \<i>))\<rparr>"
    by auto
  have "Ki = at1 K k" using Ki by (auto simp: index1_def dest!: py_index_int)
  then show ?thesis using C by (simp add: mult_ac)
qed

lemma k_sum_ivp:
  assumes S: "k_sum As CE K cn COS t (len1 K) i = Some S"
    and COS: "COS_cell K X n = Some COS"
  shows "val_at S j l = ivp_sum As CE K cn X t i j l"
proof -
  have "val_at S j l = (\<Sum>k<len1 K. cn ! k * inner_sum As CE K t i k j l * at2 (COS ! k) j l)"
    by (rule k_sum_at [OF S])
  also have "\<dots> = (\<Sum>k<len1 K. cn ! k * inner_sum As CE K t i k j l * exp (\<i> * at1 K k * at2 X j l))"
    by (rule sum.cong) (auto simp: COS_cell_at [OF COS] k_sum_wavenumbers [OF S])
  also have "\<dots> = ivp_sum As CE K cn X t i j l"
    unfolding ivp_sum_def inner_sum_def
    by (simp add: sum_distrib_left sum_distrib_right mult_ac)
  finally show ?thesis .
qed

subsection \<open>Slice assignments and the loop over the time indices\<close>

lemma store_slice_Some:
  assumes "store_slice ds i T0 = Some ds'"
  shows "coord_time ds' = coord_time ds \<and> coord_y ds' = coord_y ds \<and> coord_x ds' = coord_x ds \<and>
         i < len1 (coord_time ds) \<and>
         Theta ds' = (\<lambda>i' j l. if i' = i then Val (Re (val_at T0 j l)) else Theta ds i' j l)"
  using assms by (cases T0) (auto split: if_splits simp: fun_eq_iff)

lemma assign_slice_Some:
  assumes "assign_slice s p i T0 = Some s'"
  shows "\<exists>ds ds'. get_dataset s p = Some ds \<and> store_slice ds i T0 = Some ds' \<and>
           s' = s\<lparr>heap := (heap s)[p := Dataset ds'], stores := stores s @ [(p, i)]\<rparr>"
  using assms by (auto simp: assign_slice_def bind_eq_Some_conv)

lemma get_dataset_Some: "get_dataset s p = Some ds \<longleftrightarrow> p < length (heap s) \<and> heap s ! p = Dataset ds"
  by (auto simp: get_dataset_def deref_def split: option.splits pyobj.splits if_splits)

lemma same_args_refl: "same_args s s"
  by (simp add: same_args_def)

lemma same_args_trans: "same_args s1 s2 \<Longrightarrow> same_args s2 s3 \<Longrightarrow> same_args s1 s3"
  by (simp add: same_args_def)

lemma same_args_heap: "heap s' = heap s \<Longrightarrow> same_args s s'"
  by (auto simp: same_args_def fun_eq_iff get_dict_def get_list3_def get_list2_def get_floats_def
        get_arr1_def get_arr2_def deref_def)

lemma deref_update:
  "deref (s\<lparr>heap := (heap s)[p := obj], stores := x\<rparr>) a =
     (if a = p \<and> p < length (heap s) then Some obj else deref s a)"
  by (auto simp: deref_def)

lemma same_args_update:
  assumes "get_dataset s p = Some ds"
  shows "same_args s (s\<lparr>heap := (heap s)[p := Dataset ds'], stores := x\<rparr>)"
proof -
  from assms have p: "p < length (heap s)" "deref s p = Some (Dataset ds)"
    by (auto simp: get_dataset_Some deref_def)
  show ?thesis
    unfolding same_args_def fun_eq_iff get_dict_def get_list3_def get_list2_def get_floats_def
      get_arr1_def get_arr2_def deref_update
    using p by auto
qed

lemma same_args_assign: "assign_slice s p i T0 = Some s' \<Longrightarrow> same_args s s'"
  by (auto dest!: assign_slice_Some intro: same_args_update)


lemma time_loop_Theta:
  assumes "time_loop pr body p is s = (s', True)"
    and stab: "\<And>s1 s2 i. same_args s1 s2 \<Longrightarrow> body s2 i = body s1 i"
    and "distinct is" and "get_dataset s p = Some d"
  shows "\<exists>d'. get_dataset s' p = Some d' \<and> coord_time d' = coord_time d \<and>
           coord_y d' = coord_y d \<and> coord_x d' = coord_x d \<and>
           (\<forall>i\<in>set is. \<exists>T0. body s i = Some T0 \<and> (\<forall>j l. Theta d' i j l = Val (Re (val_at T0 j l)))) \<and>
           (\<forall>i. i \<notin> set is \<longrightarrow> Theta d' i = Theta d i)"
  using assms(1,3,4)
proof (induction "is" arbitrary: s d)
  case Nil
  then show ?case by simp
next
  case (Cons i "is")
  define s1 where "s1 = (if pr then s\<lparr>stdout := stdout s @ [i]\<rparr> else s)"
  have hs1: "heap s1 = heap s" by (simp add: s1_def)
  have sa1: "same_args s s1" by (rule same_args_heap [OF hs1])
  from Cons.prems(1) obtain T0 s2 where
    b: "body s1 i = Some T0" and a: "assign_slice s1 p i T0 = Some s2"
    and loop: "time_loop pr body p is s2 = (s', True)"
    by (auto simp: s1_def Let_def split: option.splits)
  from assign_slice_Some [OF a] obtain ds ds' where
    ds: "get_dataset s1 p = Some ds" and st: "store_slice ds i T0 = Some ds'"
    and s2: "s2 = s1\<lparr>heap := (heap s1)[p := Dataset ds'], stores := stores s1 @ [(p, i)]\<rparr>"
    by blast
  have "ds = d" using ds Cons.prems(3) hs1 by (simp add: get_dataset_Some)
  have d2: "get_dataset s2 p = Some ds'"
    using ds s2 by (simp add: get_dataset_Some)
  have sa2: "same_args s s2"
    using same_args_trans [OF sa1 same_args_assign [OF a]] .
  from Cons.prems(2) have dis: "distinct is" and ni: "i \<notin> set is" by simp_all
  from Cons.IH [OF loop dis d2] obtain d' where
    d': "get_dataset s' p = Some d'" "coord_time d' = coord_time ds'"
      "coord_y d' = coord_y ds'" "coord_x d' = coord_x ds'"
    and th: "\<forall>i\<in>set is. \<exists>T0. body s2 i = Some T0 \<and> (\<forall>j l. Theta d' i j l = Val (Re (val_at T0 j l)))"
    and rest: "\<forall>i. i \<notin> set is \<longrightarrow> Theta d' i = Theta ds' i"
    by blast
  note ss = store_slice_Some [OF st]
  have bi: "body s i = Some T0" using stab [OF sa1] b by simp
  have "Theta d' i = Theta ds' i" using rest ni by simp
  then have ti: "\<forall>j l. Theta d' i j l = Val (Re (val_at T0 j l))" using ss by simp
  have others: "\<forall>i'. i' \<notin> set (i # is) \<longrightarrow> Theta d' i' = Theta d i'"
    using rest ss \<open>ds = d\<close> by (auto simp: fun_eq_iff)
  have "\<forall>i'\<in>set is. \<exists>T0. body s i' = Some T0 \<and> (\<forall>j l. Theta d' i' j l = Val (Re (val_at T0 j l)))"
    using th stab [OF sa2] by simp
  with bi ti have all: "\<forall>i'\<in>set (i # is). \<exists>T0. body s i' = Some T0 \<and>
      (\<forall>j l. Theta d' i' j l = Val (Re (val_at T0 j l)))"
    by auto
  show ?case using d' ss \<open>ds = d\<close> all others by auto
qed


subsection \<open>The value of one pass of the loop\<close>

lemma loc_body_stable:
  "same_args s1 s2 \<Longrightarrow> loc_body COS As CE K cn t N s2 i = loc_body COS As CE K cn t N s1 i"
  by (simp add: loc_body_def same_args_def)

lemma psd_body_stable:
  "same_args s1 s2 \<Longrightarrow>
     psd_body COS As CE K cn sigma t N s2 i = psd_body COS As CE K cn sigma t N s1 i"
  by (simp add: psd_body_def same_args_def)

lemma sm2_body_stable:
  "same_args s1 s2 \<Longrightarrow> sm2_body As CE k X t s2 i = sm2_body As CE k X t s1 i"
  by (simp add: sm2_body_def same_args_def)

lemma val_at_real_part: "val_at (real_part V) j l = complex_of_real (Re (val_at V j l))"
  by (cases V) simp_all

lemma val_at_scale_val: "val_at (scale_val c V) j l = c * val_at V j l"
  by (cases V) (simp_all add: scale2_def)

lemma loc_body_at:
  assumes "loc_body COS As CE K cn t (len1 K_v) s i = Some T0"
    and "get_dict s As = Some As_v" "get_list3 s CE = Some CE_v" "get_arr1 s K = Some K_v"
      "get_floats s cn = Some cn_v" "get_arr1 s t = Some t_v"
      "get_list2 s COS = Some COS_v" "COS_cell K_v X_v n = Some COS_v"
  shows "Re (val_at T0 j l) = Re (ivp_sum As_v CE_v K_v cn_v X_v t_v i j l)"
proof -
  from assms obtain S where S: "k_sum As_v CE_v K_v cn_v COS_v t_v (len1 K_v) i = Some S"
    and T0: "T0 = real_part S"
    by (auto simp: loc_body_def bind_eq_Some_conv)
  show ?thesis using k_sum_ivp [OF S assms(8), of j l] T0 by (simp add: val_at_real_part)
qed

lemma psd_body_at:
  assumes "psd_body COS As CE K cn sigma t (len1 K_v) s i = Some T0"
    and "get_dict s As = Some As_v" "get_list3 s CE = Some CE_v" "get_arr1 s K = Some K_v"
      "get_floats s cn = Some cn_v" "get_arr1 s t = Some t_v"
      "get_list2 s COS = Some COS_v" "COS_cell K_v X_v n = Some COS_v"
  shows "Re (val_at T0 j l) = sigma\<^sup>2 * Re (ivp_sum As_v CE_v K_v cn_v X_v t_v i j l)"
proof -
  from assms obtain S where S: "k_sum As_v CE_v K_v cn_v COS_v t_v (len1 K_v) i = Some S"
    and T0: "T0 = scale_val (complex_of_real (sigma\<^sup>2)) (real_part S)"
    by (auto simp: psd_body_def bind_eq_Some_conv)
  show ?thesis using k_sum_ivp [OF S assms(8), of j l] T0
    by (simp add: val_at_real_part val_at_scale_val)
qed

lemma harmonic_term_last_at:
  assumes "harmonic_term_last As CE k t i r = Some T"
  shows "at2 T j l = 2 * last_A0 As r * at3 (CE ! r) (dim0 (CE ! r) - 1) j l
           * exp (- (last_a As r / 4 + (complex_of_real k)\<^sup>2) * at1 t i)"
proof -
  from assms obtain A0 C ce ak ti where
    A0: "lookup_A0 As r (- 1) = Some A0" and C: "list_index CE (int r) = Some C"
    and ce: "plane C (- 1) = Some ce" and ak: "lookup_a As r (- 1) = Some ak"
    and ti: "index1 t (int i) = Some ti"
    and T: "T = ce\<lparr>at2 := (\<lambda>j l. 2 * A0 * at2 ce j l
                * exp (- (25 / 100 * ak + (complex_of_real k)\<^sup>2) * ti))\<rparr>"
    by (auto simp: harmonic_term_last_def bind_eq_Some_conv)
  have "C = CE ! r" using C by (auto simp: list_index_def dest!: py_index_int)
  moreover have "at2 ce j l = at3 C (dim0 C - 1) j l"
    using ce by (auto simp: plane_def dest!: py_index_last)
  moreover have "ti = at1 t i" using ti by (auto simp: index1_def dest!: py_index_int)
  ultimately show ?thesis
    using lookup_A0_last [OF A0] lookup_a_last [OF ak] T by simp
qed

lemma sm2_body_at:
  assumes "sm2_body As CE k X t s i = Some T0"
    and "get_dict s As = Some As_v" "get_list3 s CE = Some CE_v" "get_arr2 s X = Some X_v"
      "get_arr1 s t = Some t_v"
  shows "Re (val_at T0 j l) = Re (mode_sum As_v CE_v k X_v t_v i j l)"
proof -
  define E where "E = X_v\<lparr>at2 := (\<lambda>j l. exp (complex_of_real k * at2 X_v j l * \<i>))\<rparr>"
  from assms obtain terms CE2n W where
    terms: "those (map (harmonic_term_last As_v CE_v k t_v i) [0..<length CE_v]) = Some terms"
    and CE2n: "py_sum (Sc 0) (map Ar terms) = Some CE2n"
    and W0: "(case CE2n of
                Sc z \<Rightarrow> Some (scale2 z (X_v\<lparr>at2 := (\<lambda>j l. exp (complex_of_real k * at2 X_v j l * \<i>))\<rparr>))
              | Ar A \<Rightarrow> mul2 A (X_v\<lparr>at2 := (\<lambda>j l. exp (complex_of_real k * at2 X_v j l * \<i>))\<rparr>))
             = Some W"
    and T0: "T0 = real_part (Ar W)"
    by (auto simp: sm2_body_def bind_eq_Some_conv Let_def simp del: real_part.simps)
  from W0 have W: "(case CE2n of Sc z \<Rightarrow> Some (scale2 z E) | Ar A \<Rightarrow> mul2 A E) = Some W"
    unfolding E_def .
  from those_map_Some [OF terms]
  have nth: "\<And>r. r < length CE_v \<Longrightarrow> harmonic_term_last As_v CE_v k t_v i r = Some (terms ! r)"
    by auto
  have "val_at CE2n j l = (\<Sum>T\<leftarrow>terms. at2 T j l)"
    using py_sum_at [OF CE2n, of j l] by (simp add: o_def)
  also have "\<dots> = (\<Sum>r<length CE_v. at2 (the (harmonic_term_last As_v CE_v k t_v i r)) j l)"
    by (rule those_sum [OF terms])
  also have "\<dots> = (\<Sum>r<length CE_v. 2 * last_A0 As_v r * at3 (CE_v ! r) (dim0 (CE_v ! r) - 1) j l
           * exp (- (last_a As_v r / 4 + (complex_of_real k)\<^sup>2) * at1 t_v i))"
  proof (rule sum.cong)
    fix r assume "r \<in> {..<length CE_v}"
    then have h: "harmonic_term_last As_v CE_v k t_v i r = Some (terms ! r)" using nth by simp
    from harmonic_term_last_at [OF h, of j l] h
    show "at2 (the (harmonic_term_last As_v CE_v k t_v i r)) j l =
            2 * last_A0 As_v r * at3 (CE_v ! r) (dim0 (CE_v ! r) - 1) j l
              * exp (- (last_a As_v r / 4 + (complex_of_real k)\<^sup>2) * at1 t_v i)"
      by (simp only: option.sel)
  qed simp
  finally have v: "val_at CE2n j l = (\<Sum>r<length CE_v. 2 * last_A0 As_v r
           * at3 (CE_v ! r) (dim0 (CE_v ! r) - 1) j l
           * exp (- (last_a As_v r / 4 + (complex_of_real k)\<^sup>2) * at1 t_v i))" .
  have "at2 W j l = val_at CE2n j l * at2 E j l"
    using W by (cases CE2n) (auto simp: scale2_def mul2_def split: if_splits)
  then have "at2 W j l = mode_sum As_v CE_v k X_v t_v i j l"
    unfolding v mode_sum_def E_def
    by (simp add: sum_distrib_left sum_distrib_right mult_ac)
  then show ?thesis using T0 by simp
qed

lemma same_args_alloc: "same_args s (fst (alloc (Dataset d) s))"
  by (auto simp: same_args_def alloc_def fun_eq_iff get_dict_def get_list3_def get_list2_def
        get_floats_def get_arr1_def get_arr2_def deref_def nth_append)

lemma get_dataset_alloc: "get_dataset (fst (alloc (Dataset d) s)) (length (heap s)) = Some d"
  by (simp add: get_dataset_Some alloc_def)

lemma make_coords_Some:
  assumes "make_coords s c X Y t = Some (tc, yc, xc)"
  shows "\<exists>X_v Y_v. get_arr1 s t = Some tc \<and> get_arr2 s X = Some X_v \<and> get_arr2 s Y = Some Y_v \<and>
           len1 yc = nrows Y_v \<and> len1 xc = ncols X_v"
  using assms
  by (auto simp: make_coords_def bind_eq_Some_conv column0_def row0_def scale1_def
        split: if_splits)

subsection \<open>The store after a call\<close>

lemma time_loop_coords:
  "time_loop pr body p is s = (s', ok) \<Longrightarrow> get_dataset s p = Some d \<Longrightarrow>
     \<exists>d'. get_dataset s' p = Some d' \<and> coord_time d' = coord_time d \<and>
          coord_y d' = coord_y d \<and> coord_x d' = coord_x d"
proof (induction "is" arbitrary: s d)
  case Nil
  then show ?case by simp
next
  case (Cons i "is")
  define s1 where "s1 = (if pr then s\<lparr>stdout := stdout s @ [i]\<rparr> else s)"
  have d1: "get_dataset s1 p = Some d" using Cons.prems(2) by (simp add: s1_def get_dataset_Some)
  show ?case
  proof (cases "body s1 i")
    case None
    with Cons.prems(1) have "s' = s1" by (simp add: s1_def Let_def)
    then show ?thesis using d1 by simp
  next
    case (Some T0)
    show ?thesis
    proof (cases "assign_slice s1 p i T0")
      case None
      with Some Cons.prems(1) have "s' = s1" by (simp add: s1_def Let_def)
      then show ?thesis using d1 by simp
    next
      case (Some s2)
      with \<open>body s1 i = Some T0\<close> Cons.prems(1)
      have loop: "time_loop pr body p is s2 = (s', ok)" by (simp add: s1_def Let_def)
      from assign_slice_Some [OF Some] obtain ds ds' where
        ds: "get_dataset s1 p = Some ds" and st: "store_slice ds i T0 = Some ds'"
        and s2: "s2 = s1\<lparr>heap := (heap s1)[p := Dataset ds'], stores := stores s1 @ [(p, i)]\<rparr>"
        by blast
      have d2: "get_dataset s2 p = Some ds'" using ds s2 by (simp add: get_dataset_Some)
      from Cons.IH [OF loop d2] store_slice_Some [OF st] ds d1 show ?thesis by auto
    qed
  qed
qed

lemma alloc_eq: "alloc obj s = (s\<lparr>heap := heap s @ [obj]\<rparr>, length (heap s))"
  by (simp add: alloc_def)

lemma same_args_ext: "same_args s (s\<lparr>heap := heap s @ [Dataset d]\<rparr>)"
  using same_args_alloc [of s d] by (simp add: alloc_eq)







text \<open>The slices written by a loop that ran to its end, read off the returned dataset.\<close>

lemma loop_returned_Theta:
  assumes loop: "time_loop pr body (length (heap s)) [0..<n] s1 = (s', True)"
    and s1: "s1 = s\<lparr>heap := heap s @ [Dataset d]\<rparr>"
    and stab: "\<And>s1 s2 i. same_args s1 s2 \<Longrightarrow> body s2 i = body s1 i"
    and i: "i < n"
  shows "\<exists>T0. body s1 i = Some T0 \<and>
           returned_Theta (s', Some (length (heap s))) i j l = Some (Val (Re (val_at T0 j l)))"
proof -
  have d1: "get_dataset s1 (length (heap s)) = Some d" using s1 by (simp add: get_dataset_Some)
  from time_loop_Theta [OF loop stab _ d1] obtain d' where
    d': "get_dataset s' (length (heap s)) = Some d'"
    and th: "\<forall>i\<in>set [0..<n]. \<exists>T0. body s1 i = Some T0 \<and>
               (\<forall>j l. Theta d' i j l = Val (Re (val_at T0 j l)))"
    by auto
  from i have "i \<in> set [0..<n]" by simp
  with th have "\<exists>T0. body s1 i = Some T0 \<and> (\<forall>j l. Theta d' i j l = Val (Re (val_at T0 j l)))"
    by blast
  then obtain T0 where "body s1 i = Some T0" "Theta d' i j l = Val (Re (val_at T0 j l))"
    by blast
  then show ?thesis using d' by (auto simp: returned_Theta_def)
qed

lemma evolve_ds_loc_Theta:
  assumes ret: "snd (evolve_ds_loc COS s As CE K cn sigma X Y t) \<noteq> None"
    and args: "get_dict s As = Some As_v" "get_list3 s CE = Some CE_v" "get_arr1 s K = Some K_v"
      "get_floats s cn = Some cn_v" "get_arr2 s X = Some X_v" "get_arr1 s t = Some t_v"
    and cos: "get_list2 s COS = Some COS_v" "COS_cell K_v X_v n = Some COS_v"
    and i: "i < len1 t_v"
  shows "returned_Theta (evolve_ds_loc COS s As CE K cn sigma X Y t) i j l
           = Some (Val (Re (ivp_sum As_v CE_v K_v cn_v X_v t_v i j l)))"
proof -
  from ret obtain tc yc xc where mk: "make_coords s 2 X Y t = Some (tc, yc, xc)"
    by (cases "make_coords s 2 X Y t") (auto simp: evolve_ds_loc_def)
  have tc: "tc = t_v" using make_coords_Some [OF mk] args by auto
  define s1 where "s1 = s\<lparr>heap := heap s @ [Dataset (new_dataset tc yc xc)]\<rparr>"
  have sa: "same_args s s1" unfolding s1_def by (rule same_args_ext)
  then have g: "get_dict s1 = get_dict s" "get_list3 s1 = get_list3 s" "get_arr1 s1 = get_arr1 s"
    "get_floats s1 = get_floats s" "get_list2 s1 = get_list2 s"
    by (simp_all add: same_args_def)
  have K1: "get_arr1 s1 K = Some K_v" using g args by simp
  obtain s' ok where loop: "time_loop True (loc_body COS As CE K cn t (len1 K_v))
      (length (heap s)) [0..<len1 tc] s1 = (s', ok)"
    by (cases "time_loop True (loc_body COS As CE K cn t (len1 K_v))
      (length (heap s)) [0..<len1 tc] s1") auto
  have run: "evolve_ds_loc COS s As CE K cn sigma X Y t
          = (s', if ok then Some (length (heap s)) else None)"
    using mk K1 loop by (simp add: evolve_ds_loc_def alloc_eq s1_def [symmetric])
  with ret have ok by (auto split: if_splits)
  with loop have loop': "time_loop True (loc_body COS As CE K cn t (len1 K_v))
      (length (heap s)) [0..<len1 tc] s1 = (s', True)" by simp
  from loop_returned_Theta [OF loop' s1_def loc_body_stable, of i j l] i tc
  obtain T0 where b: "loc_body COS As CE K cn t (len1 K_v) s1 i = Some T0"
    and th: "returned_Theta (s', Some (length (heap s))) i j l = Some (Val (Re (val_at T0 j l)))"
    by auto
  have "Re (val_at T0 j l) = Re (ivp_sum As_v CE_v K_v cn_v X_v t_v i j l)"
    by (rule loc_body_at [OF b _ _ _ _ _ _ cos(2)]) (simp_all add: g args cos)
  then show ?thesis using th run \<open>ok\<close> by simp
qed

lemma evolve_ds_psd_Theta:
  assumes ret: "snd (evolve_ds_psd COS s As CE K cn sigma X Y t) \<noteq> None"
    and args: "get_dict s As = Some As_v" "get_list3 s CE = Some CE_v" "get_arr1 s K = Some K_v"
      "get_floats s cn = Some cn_v" "get_arr2 s X = Some X_v" "get_arr1 s t = Some t_v"
    and cos: "get_list2 s COS = Some COS_v" "COS_cell K_v X_v n = Some COS_v"
    and i: "i < len1 t_v"
  shows "returned_Theta (evolve_ds_psd COS s As CE K cn sigma X Y t) i j l
           = Some (Val (sigma\<^sup>2 * Re (ivp_sum As_v CE_v K_v cn_v X_v t_v i j l)))"
proof -
  from ret obtain tc yc xc where mk: "make_coords s 1 X Y t = Some (tc, yc, xc)"
    by (cases "make_coords s 1 X Y t") (auto simp: evolve_ds_psd_def)
  have tc: "tc = t_v" using make_coords_Some [OF mk] args by auto
  define s1 where "s1 = s\<lparr>heap := heap s @ [Dataset (new_dataset tc yc xc)]\<rparr>"
  have sa: "same_args s s1" unfolding s1_def by (rule same_args_ext)
  then have g: "get_dict s1 = get_dict s" "get_list3 s1 = get_list3 s" "get_arr1 s1 = get_arr1 s"
    "get_floats s1 = get_floats s" "get_list2 s1 = get_list2 s"
    by (simp_all add: same_args_def)
  have K1: "get_arr1 s1 K = Some K_v" using g args by simp
  obtain s' ok where loop: "time_loop False (psd_body COS As CE K cn sigma t (len1 K_v))
      (length (heap s)) [0..<len1 tc] s1 = (s', ok)"
    by (cases "time_loop False (psd_body COS As CE K cn sigma t (len1 K_v))
      (length (heap s)) [0..<len1 tc] s1") auto
  have run: "evolve_ds_psd COS s As CE K cn sigma X Y t
          = (s', if ok then Some (length (heap s)) else None)"
    using mk K1 loop by (simp add: evolve_ds_psd_def alloc_eq s1_def [symmetric])
  with ret have ok by (auto split: if_splits)
  with loop have loop': "time_loop False (psd_body COS As CE K cn sigma t (len1 K_v))
      (length (heap s)) [0..<len1 tc] s1 = (s', True)" by simp
  from loop_returned_Theta [OF loop' s1_def psd_body_stable, of i j l] i tc
  obtain T0 where b: "psd_body COS As CE K cn sigma t (len1 K_v) s1 i = Some T0"
    and th: "returned_Theta (s', Some (length (heap s))) i j l = Some (Val (Re (val_at T0 j l)))"
    by auto
  have "Re (val_at T0 j l) = sigma\<^sup>2 * Re (ivp_sum As_v CE_v K_v cn_v X_v t_v i j l)"
    by (rule psd_body_at [OF b _ _ _ _ _ _ cos(2)]) (simp_all add: g args cos)
  then show ?thesis using th run \<open>ok\<close> by simp
qed

lemma evolve_ds_sm2_Theta:
  assumes ret: "snd (evolve_ds_sm2 s As CE k X Y t) \<noteq> None"
    and args: "get_dict s As = Some As_v" "get_list3 s CE = Some CE_v"
      "get_arr2 s X = Some X_v" "get_arr1 s t = Some t_v"
    and i: "i < len1 t_v"
  shows "returned_Theta (evolve_ds_sm2 s As CE k X Y t) i j l
           = Some (Val (Re (mode_sum As_v CE_v k X_v t_v i j l)))"
proof -
  from ret obtain tc yc xc where mk: "make_coords s 2 X Y t = Some (tc, yc, xc)"
    by (cases "make_coords s 2 X Y t") (auto simp: evolve_ds_sm2_def)
  have tc: "tc = t_v" using make_coords_Some [OF mk] args by auto
  define s1 where "s1 = s\<lparr>heap := heap s @ [Dataset (new_dataset tc yc xc)]\<rparr>"
  have sa: "same_args s s1" unfolding s1_def by (rule same_args_ext)
  then have g: "get_dict s1 = get_dict s" "get_list3 s1 = get_list3 s" "get_arr1 s1 = get_arr1 s"
    "get_arr2 s1 = get_arr2 s"
    by (simp_all add: same_args_def)
  obtain s' ok where loop: "time_loop False (sm2_body As CE k X t)
      (length (heap s)) [0..<len1 tc] s1 = (s', ok)"
    by (cases "time_loop False (sm2_body As CE k X t) (length (heap s)) [0..<len1 tc] s1") auto
  have run: "evolve_ds_sm2 s As CE k X Y t = (s', if ok then Some (length (heap s)) else None)"
    using mk loop by (simp add: evolve_ds_sm2_def alloc_eq s1_def [symmetric])
  with ret have ok by (auto split: if_splits)
  with loop have loop': "time_loop False (sm2_body As CE k X t)
      (length (heap s)) [0..<len1 tc] s1 = (s', True)" by simp
  from loop_returned_Theta [OF loop' s1_def sm2_body_stable, of i j l] i tc
  obtain T0 where b: "sm2_body As CE k X t s1 i = Some T0"
    and th: "returned_Theta (s', Some (length (heap s))) i j l = Some (Val (Re (val_at T0 j l)))"
    by auto
  have "Re (val_at T0 j l) = Re (mode_sum As_v CE_v k X_v t_v i j l)"
    by (rule sm2_body_at [OF b]) (simp_all add: g args)
  then show ?thesis using th run \<open>ok\<close> by simp
qed

subsection \<open>Calls with well-shaped arguments return\<close>

lemma those_map_total:
  assumes "\<And>x. x \<in> set xs \<Longrightarrow> \<exists>y. f x = Some y \<and> P y"
  shows "\<exists>ys. those (map f xs) = Some ys \<and> (\<forall>y\<in>set ys. P y)"
  using assms
proof (induction xs)
  case Nil
  then show ?case by simp
next
  case (Cons x xs)
  from Cons.prems [of x] obtain y where y: "f x = Some y" "P y" by auto
  from Cons.IH Cons.prems obtain ys where "those (map f xs) = Some ys" "\<forall>y\<in>set ys. P y"
    by auto
  with y show ?case by simp
qed

lemma py_index_nat: "k < n \<Longrightarrow> py_index n (int k) = Some k"
  by (simp add: py_index_def)

lemma py_index_minus1: "0 < n \<Longrightarrow> py_index n (- 1) = Some (n - 1)"
  by (auto simp: py_index_def nat_diff_distrib')

lemma add_val_total:
  assumes "shape_ok ny nx acc" and "nrows T = ny" "ncols T = nx"
  shows "\<exists>acc'. add_val acc (Ar T) = Some acc' \<and> shape_ok ny nx acc'"
proof (cases acc)
  case (Sc z)
  then show ?thesis using assms(2,3) by simp
next
  case (Ar A)
  with assms have "same_shape A T" by (simp add: same_shape_def)
  then show ?thesis using Ar assms(1) by (simp add: add2_def)
qed

lemma py_sum_total:
  assumes "\<forall>T\<in>set terms. nrows T = ny \<and> ncols T = nx" and "shape_ok ny nx acc"
  shows "\<exists>v. py_sum acc (map Ar terms) = Some v \<and> shape_ok ny nx v"
  using assms
proof (induction terms arbitrary: acc)
  case Nil
  then show ?case by simp
next
  case (Cons T terms)
  from Cons.prems(1) have T: "nrows T = ny" "ncols T = nx"
    and rest: "\<forall>T\<in>set terms. nrows T = ny \<and> ncols T = nx" by simp_all
  from add_val_total [OF Cons.prems(2) T] obtain acc' where
    a: "add_val acc (Ar T) = Some acc'" "shape_ok ny nx acc'" by blast
  from Cons.IH [OF rest a(2)] obtain v where "py_sum acc' (map Ar terms) = Some v"
    "shape_ok ny nx v" by blast
  then show ?case using a(1) by simp
qed

lemma np_sum_axis0_total:
  assumes "\<forall>W\<in>set Ws. nrows W = ny \<and> ncols W = nx"
  shows "\<exists>S. np_sum_axis0 Ws = Some S \<and> shape_ok ny nx S"
proof (cases Ws)
  case Nil
  then show ?thesis by simp
next
  case (Cons A As)
  from assms Cons have A: "nrows A = ny" "ncols A = nx" by simp_all
  have "same_shape A B" if "B \<in> set As" for B
  proof -
    from assms Cons that have "nrows B = ny" "ncols B = nx" by simp_all
    with A show ?thesis by (simp add: same_shape_def)
  qed
  then have "\<forall>B\<in>set As. same_shape A B" by blast
  then show ?thesis using Cons A by simp
qed

lemma harmonic_term_total:
  assumes tab: "tables_ok As CE N X" and r: "r < length CE" and k: "k < N"
    and K: "N \<le> len1 K" and i: "i < len1 t"
  shows "\<exists>T. harmonic_term As CE K t i k r = Some T \<and> nrows T = nrows X \<and> ncols T = ncols X"
proof -
  from tab r obtain A v where
    A: "As (''A'' @ str (2 * r)) = Some (Mat A)" "N \<le> nrows A" "0 < ncols A"
    and v: "As (''a'' @ str (2 * r)) = Some (Vec v)" "N \<le> len1 v"
    and C: "N \<le> dim0 (CE ! r)" "dim1 (CE ! r) = nrows X" "dim2 (CE ! r) = ncols X"
    unfolding tables_ok_def by blast
  have "lookup_A0 As r (int k) = Some (at2 A k 0)"
    using A k by (simp add: lookup_A0_def index2_def py_index_nat) (simp add: py_index_def)
  moreover have "lookup_a As r (int k) = Some (at1 v k)"
    using v k by (simp add: lookup_a_def index1_def py_index_nat)
  moreover have "list_index CE (int r) = Some (CE ! r)"
    using r by (simp add: list_index_def py_index_nat)
  moreover have "plane (CE ! r) (int k)
      = Some \<lparr>nrows = dim1 (CE ! r), ncols = dim2 (CE ! r), at2 = at3 (CE ! r) k\<rparr>"
    using C k by (simp add: plane_def py_index_nat)
  moreover have "index1 K (int k) = Some (at1 K k)" using K k by (simp add: index1_def py_index_nat)
  moreover have "index1 t (int i) = Some (at1 t i)" using i by (simp add: index1_def py_index_nat)
  ultimately show ?thesis using C by (simp add: harmonic_term_def)
qed

lemma wavenumber_term_total:
  assumes tab: "tables_ok As CE N X" and k: "k < N"
    and K: "N \<le> len1 K" and i: "i < len1 t" and cn: "N \<le> length cn"
    and COS: "N \<le> length COS" "\<forall>k<N. nrows (COS ! k) = nrows X \<and> ncols (COS ! k) = ncols X"
  shows "\<exists>W. wavenumber_term As CE K cn COS t i k = Some W \<and> nrows W = nrows X \<and> ncols W = ncols X"
proof -
  have "\<exists>terms. those (map (harmonic_term As CE K t i k) [0..<length CE]) = Some terms \<and>
          (\<forall>T\<in>set terms. nrows T = nrows X \<and> ncols T = ncols X)"
    by (rule those_map_total) (use harmonic_term_total [OF tab _ k K i] in auto)
  then obtain terms where
    terms: "those (map (harmonic_term As CE K t i k) [0..<length CE]) = Some terms"
    and sh: "\<forall>T\<in>set terms. nrows T = nrows X \<and> ncols T = ncols X"
    by blast
  from py_sum_total [OF sh, of "Sc 0"] obtain CE2n where
    CE2n: "py_sum (Sc 0) (map Ar terms) = Some CE2n" "shape_ok (nrows X) (ncols X) CE2n"
    by auto
  have c: "list_index cn (int k) = Some (cn ! k)"
    using cn k by (simp add: list_index_def py_index_nat)
  have cosk: "list_index COS (int k) = Some (COS ! k)"
    using COS k by (simp add: list_index_def py_index_nat)
  have shk: "nrows (COS ! k) = nrows X" "ncols (COS ! k) = ncols X" using COS k by simp_all
  have "\<exists>W. (case CE2n of Sc z \<Rightarrow> Some (scale2 (cn ! k * z) (COS ! k))
                | Ar A \<Rightarrow> mul2 (scale2 (cn ! k) A) (COS ! k)) = Some W \<and>
             nrows W = nrows X \<and> ncols W = ncols X"
    using CE2n(2) shk by (cases CE2n) (auto simp: scale2_def mul2_def same_shape_def)
  then show ?thesis using terms CE2n(1) c cosk by (simp add: wavenumber_term_def)
qed

lemma k_sum_total:
  assumes tab: "tables_ok As CE N X"
    and K: "N \<le> len1 K" and i: "i < len1 t" and cn: "N \<le> length cn"
    and COS: "N \<le> length COS" "\<forall>k<N. nrows (COS ! k) = nrows X \<and> ncols (COS ! k) = ncols X"
  shows "\<exists>S. k_sum As CE K cn COS t N i = Some S \<and> shape_ok (nrows X) (ncols X) S"
proof -
  have "\<exists>coeff. those (map (wavenumber_term As CE K cn COS t i) [0..<N]) = Some coeff \<and>
          (\<forall>W\<in>set coeff. nrows W = nrows X \<and> ncols W = ncols X)"
    by (rule those_map_total) (use wavenumber_term_total [OF tab _ K i cn COS] in auto)
  then obtain coeff where
    coeff: "those (map (wavenumber_term As CE K cn COS t i) [0..<N]) = Some coeff"
    and sh: "\<forall>W\<in>set coeff. nrows W = nrows X \<and> ncols W = ncols X"
    by blast
  from np_sum_axis0_total [OF sh] coeff show ?thesis by (simp add: k_sum_def)
qed

lemma COS_cell_shape:
  assumes "COS_cell K X n = Some COS"
  shows "length COS = n \<and> (\<forall>k<n. nrows (COS ! k) = nrows X \<and> ncols (COS ! k) = ncols X)"
proof -
  from those_map_Some [OF assms [unfolded COS_cell_def]]
  have len: "length COS = n"
    and nth: "\<And>k. k < n \<Longrightarrow> map_option (\<lambda>Ki. X\<lparr>at2 := (\<lambda>j l. exp (Ki * at2 X j l * \<i>))\<rparr>)
                 (index1 K (int k)) = Some (COS ! k)"
    by auto
  have "nrows (COS ! k) = nrows X \<and> ncols (COS ! k) = ncols X" if "k < n" for k
  proof -
    from nth [OF that] obtain Ki where
      e: "X\<lparr>at2 := (\<lambda>j l. exp (Ki * at2 X j l * \<i>))\<rparr> = COS ! k" by auto
    from e [symmetric] show ?thesis by simp
  qed
  then show ?thesis using len by blast
qed

lemma shape_ok_real_part: "shape_ok ny nx (real_part V) = shape_ok ny nx V"
  by (cases V) simp_all

lemma shape_ok_scale_val: "shape_ok ny nx (scale_val c V) = shape_ok ny nx V"
  by (cases V) (simp_all add: scale2_def)

lemma store_slice_total:
  "shape_ok (len1 (coord_y ds)) (len1 (coord_x ds)) T0 \<Longrightarrow> i < len1 (coord_time ds) \<Longrightarrow>
     \<exists>ds'. store_slice ds i T0 = Some ds'"
  by (cases T0) simp_all

lemma time_loop_total:
  assumes stab: "\<And>s1 s2 i. same_args s1 s2 \<Longrightarrow> body s2 i = body s1 i"
    and body: "\<And>i. i \<in> set is \<Longrightarrow> \<exists>T0. body s i = Some T0 \<and>
                 shape_ok (len1 (coord_y d)) (len1 (coord_x d)) T0"
    and d: "get_dataset s p = Some d"
    and bound: "\<And>i. i \<in> set is \<Longrightarrow> i < len1 (coord_time d)"
  shows "\<exists>s'. time_loop pr body p is s = (s', True)"
  using body d bound
proof (induction "is" arbitrary: s d)
  case Nil
  then show ?case by simp
next
  case (Cons i "is")
  define s1 where "s1 = (if pr then s\<lparr>stdout := stdout s @ [i]\<rparr> else s)"
  have hs1: "heap s1 = heap s" by (simp add: s1_def)
  have sa1: "same_args s s1" by (rule same_args_heap [OF hs1])
  have d1: "get_dataset s1 p = Some d" using Cons.prems(2) hs1 by (simp add: get_dataset_Some)
  from Cons.prems(1) [of i] obtain T0 where
    b: "body s i = Some T0" and sh: "shape_ok (len1 (coord_y d)) (len1 (coord_x d)) T0" by auto
  have b1: "body s1 i = Some T0" using stab [OF sa1] b by simp
  from store_slice_total [OF sh] Cons.prems(3) [of i] obtain ds' where
    st: "store_slice d i T0 = Some ds'" by auto
  define s2 where "s2 = s1\<lparr>heap := (heap s1)[p := Dataset ds'], stores := stores s1 @ [(p, i)]\<rparr>"
  have a: "assign_slice s1 p i T0 = Some s2"
    using d1 st by (simp add: assign_slice_def s2_def)
  have sa2: "same_args s s2" using same_args_trans [OF sa1 same_args_assign [OF a]] .
  have d2: "get_dataset s2 p = Some ds'" using d1 by (simp add: s2_def get_dataset_Some)
  note ss = store_slice_Some [OF st]
  have "\<exists>s'. time_loop pr body p is s2 = (s', True)"
  proof (rule Cons.IH [OF _ d2])
    fix i' assume i': "i' \<in> set is"
    with Cons.prems(1) [of i'] stab [OF sa2] ss
    show "\<exists>T0. body s2 i' = Some T0 \<and> shape_ok (len1 (coord_y ds')) (len1 (coord_x ds')) T0"
      by simp
    from i' Cons.prems(3) [of i'] ss show "i' < len1 (coord_time ds')" by simp
  qed
  then show ?case using b1 a by (simp add: s1_def [symmetric] Let_def)
qed

lemma make_coords_total:
  assumes "get_arr1 s t = Some t_v" "get_arr2 s X = Some X_v" "get_arr2 s Y = Some Y_v"
    and "grid_ok X_v Y_v"
  shows "\<exists>yc xc. make_coords s c X Y t = Some (t_v, yc, xc) \<and> len1 yc = nrows X_v \<and>
           len1 xc = ncols X_v"
  using assms by (simp add: make_coords_def column0_def row0_def scale1_def grid_ok_def)

lemma loc_body_total:
  assumes args: "get_dict s As = Some As_v" "get_list3 s CE = Some CE_v" "get_arr1 s K = Some K_v"
      "get_floats s cn = Some cn_v" "get_arr1 s t = Some t_v" "get_list2 s COS = Some COS_v"
    and cos: "COS_cell K_v X_v (len1 K_v) = Some COS_v"
    and tab: "tables_ok As_v CE_v (len1 K_v) X_v" and cn: "len1 K_v \<le> length cn_v"
    and i: "i < len1 t_v"
  shows "\<exists>T0. loc_body COS As CE K cn t (len1 K_v) s i = Some T0 \<and>
           shape_ok (nrows X_v) (ncols X_v) T0"
proof -
  from COS_cell_shape [OF cos] have c: "len1 K_v \<le> length COS_v"
    "\<forall>k<len1 K_v. nrows (COS_v ! k) = nrows X_v \<and> ncols (COS_v ! k) = ncols X_v" by simp_all
  from k_sum_total [OF tab _ i cn c] obtain S where
    "k_sum As_v CE_v K_v cn_v COS_v t_v (len1 K_v) i = Some S" "shape_ok (nrows X_v) (ncols X_v) S"
    by auto
  then show ?thesis using args by (simp add: loc_body_def shape_ok_real_part)
qed

lemma psd_body_total:
  assumes args: "get_dict s As = Some As_v" "get_list3 s CE = Some CE_v" "get_arr1 s K = Some K_v"
      "get_floats s cn = Some cn_v" "get_arr1 s t = Some t_v" "get_list2 s COS = Some COS_v"
    and cos: "COS_cell K_v X_v (len1 K_v) = Some COS_v"
    and tab: "tables_ok As_v CE_v (len1 K_v) X_v" and cn: "len1 K_v \<le> length cn_v"
    and i: "i < len1 t_v"
  shows "\<exists>T0. psd_body COS As CE K cn sigma t (len1 K_v) s i = Some T0 \<and>
           shape_ok (nrows X_v) (ncols X_v) T0"
proof -
  from COS_cell_shape [OF cos] have c: "len1 K_v \<le> length COS_v"
    "\<forall>k<len1 K_v. nrows (COS_v ! k) = nrows X_v \<and> ncols (COS_v ! k) = ncols X_v" by simp_all
  from k_sum_total [OF tab _ i cn c] obtain S where
    "k_sum As_v CE_v K_v cn_v COS_v t_v (len1 K_v) i = Some S" "shape_ok (nrows X_v) (ncols X_v) S"
    by auto
  then show ?thesis using args
    by (simp add: psd_body_def shape_ok_real_part shape_ok_scale_val)
qed

lemma harmonic_term_last_total:
  assumes tab: "tables_ok As CE 1 X" and r: "r < length CE" and i: "i < len1 t"
  shows "\<exists>T. harmonic_term_last As CE k t i r = Some T \<and> nrows T = nrows X \<and> ncols T = ncols X"
proof -
  from tab r obtain A v where
    A: "As (''A'' @ str (2 * r)) = Some (Mat A)" "1 \<le> nrows A" "0 < ncols A"
    and v: "As (''a'' @ str (2 * r)) = Some (Vec v)" "1 \<le> len1 v"
    and C: "1 \<le> dim0 (CE ! r)" "dim1 (CE ! r) = nrows X" "dim2 (CE ! r) = ncols X"
    unfolding tables_ok_def by blast
  have "lookup_A0 As r (- 1) = Some (at2 A (nrows A - 1) 0)"
    using A by (simp add: lookup_A0_def index2_def py_index_minus1) (simp add: py_index_def)
  moreover have "lookup_a As r (- 1) = Some (at1 v (len1 v - 1))"
    using v by (simp add: lookup_a_def index1_def py_index_minus1)
  moreover have "list_index CE (int r) = Some (CE ! r)"
    using r by (simp add: list_index_def py_index_nat)
  moreover have "plane (CE ! r) (- 1)
      = Some \<lparr>nrows = dim1 (CE ! r), ncols = dim2 (CE ! r), at2 = at3 (CE ! r) (dim0 (CE ! r) - 1)\<rparr>"
    using C by (simp add: plane_def py_index_minus1)
  moreover have "index1 t (int i) = Some (at1 t i)" using i by (simp add: index1_def py_index_nat)
  ultimately show ?thesis using C by (simp add: harmonic_term_last_def)
qed

lemma sm2_body_total:
  assumes args: "get_dict s As = Some As_v" "get_list3 s CE = Some CE_v"
      "get_arr2 s X = Some X_v" "get_arr1 s t = Some t_v"
    and tab: "tables_ok As_v CE_v 1 X_v" and i: "i < len1 t_v"
  shows "\<exists>T0. sm2_body As CE k X t s i = Some T0 \<and> shape_ok (nrows X_v) (ncols X_v) T0"
proof -
  define E where "E = X_v\<lparr>at2 := (\<lambda>j l. exp (complex_of_real k * at2 X_v j l * \<i>))\<rparr>"
  have "\<exists>terms. those (map (harmonic_term_last As_v CE_v k t_v i) [0..<length CE_v]) = Some terms \<and>
          (\<forall>T\<in>set terms. nrows T = nrows X_v \<and> ncols T = ncols X_v)"
    by (rule those_map_total) (use harmonic_term_last_total [OF tab _ i] in auto)
  then obtain terms where
    terms: "those (map (harmonic_term_last As_v CE_v k t_v i) [0..<length CE_v]) = Some terms"
    and sh: "\<forall>T\<in>set terms. nrows T = nrows X_v \<and> ncols T = ncols X_v"
    by blast
  from py_sum_total [OF sh, of "Sc 0"] obtain CE2n where
    CE2n: "py_sum (Sc 0) (map Ar terms) = Some CE2n" "shape_ok (nrows X_v) (ncols X_v) CE2n"
    by auto
  have "\<exists>W. (case CE2n of Sc z \<Rightarrow> Some (scale2 z E) | Ar A \<Rightarrow> mul2 A E) = Some W \<and>
             nrows W = nrows X_v \<and> ncols W = ncols X_v"
    using CE2n(2) by (cases CE2n) (auto simp: scale2_def mul2_def same_shape_def E_def)
  then obtain W where
    W: "(case CE2n of Sc z \<Rightarrow> Some (scale2 z E) | Ar A \<Rightarrow> mul2 A E) = Some W"
    and shW: "nrows W = nrows X_v" "ncols W = ncols X_v" by blast
  have "sm2_body As CE k X t s i = Some (real_part (Ar W))"
    using args terms CE2n(1) W [unfolded E_def]
    by (simp add: sm2_body_def Let_def del: real_part.simps)
  then show ?thesis using shW by simp
qed

lemma loop_returns:
  assumes mk: "make_coords s c X Y t = Some (tc, yc, xc)"
    and s1: "s1 = s\<lparr>heap := heap s @ [Dataset (new_dataset tc yc xc)]\<rparr>"
    and stab: "\<And>s1 s2 i. same_args s1 s2 \<Longrightarrow> body s2 i = body s1 i"
    and body: "\<And>i. i < len1 tc \<Longrightarrow> \<exists>T0. body s1 i = Some T0 \<and> shape_ok (len1 yc) (len1 xc) T0"
  shows "\<exists>s'. time_loop pr body (length (heap s)) [0..<len1 tc] s1 = (s', True)"
proof (rule time_loop_total [OF stab])
  show "get_dataset s1 (length (heap s)) = Some (new_dataset tc yc xc)"
    using s1 by (simp add: get_dataset_Some)
  show "\<exists>T0. body s1 i = Some T0 \<and>
          shape_ok (len1 (coord_y (new_dataset tc yc xc))) (len1 (coord_x (new_dataset tc yc xc))) T0"
    if "i \<in> set [0..<len1 tc]" for i
    using body [of i] that by (simp add: new_dataset_def)
  show "i < len1 (coord_time (new_dataset tc yc xc))" if "i \<in> set [0..<len1 tc]" for i
    using that by (simp add: new_dataset_def)
qed

lemma evolve_ds_loc_returns:
  assumes args: "get_dict s As = Some As_v" "get_list3 s CE = Some CE_v" "get_arr1 s K = Some K_v"
      "get_floats s cn = Some cn_v" "get_arr2 s X = Some X_v" "get_arr2 s Y = Some Y_v"
      "get_arr1 s t = Some t_v" "get_list2 s COS = Some COS_v"
    and cos: "COS_cell K_v X_v (len1 K_v) = Some COS_v"
    and grid: "grid_ok X_v Y_v"
    and tab: "tables_ok As_v CE_v (len1 K_v) X_v" and cn: "len1 K_v \<le> length cn_v"
  shows "snd (evolve_ds_loc COS s As CE K cn sigma X Y t) = Some (length (heap s))"
proof -
  from make_coords_total [OF args(7,5,6) grid, of 2] obtain yc xc where
    mk: "make_coords s 2 X Y t = Some (t_v, yc, xc)"
    and sh: "len1 yc = nrows X_v" "len1 xc = ncols X_v" by blast
  define s1 where "s1 = s\<lparr>heap := heap s @ [Dataset (new_dataset t_v yc xc)]\<rparr>"
  have sa: "same_args s s1" unfolding s1_def by (rule same_args_ext)
  then have g: "get_dict s1 = get_dict s" "get_list3 s1 = get_list3 s" "get_arr1 s1 = get_arr1 s"
    "get_floats s1 = get_floats s" "get_list2 s1 = get_list2 s"
    by (simp_all add: same_args_def)
  have "\<exists>s'. time_loop True (loc_body COS As CE K cn t (len1 K_v)) (length (heap s))
          [0..<len1 t_v] s1 = (s', True)"
  proof (rule loop_returns [OF mk s1_def loc_body_stable])
    fix i assume "i < len1 t_v"
    then show "\<exists>T0. loc_body COS As CE K cn t (len1 K_v) s1 i = Some T0 \<and>
                 shape_ok (len1 yc) (len1 xc) T0"
      unfolding sh
      by (intro loc_body_total [OF _ _ _ _ _ _ cos tab cn]) (simp_all add: g args)
  qed
  then obtain s' where "time_loop True (loc_body COS As CE K cn t (len1 K_v)) (length (heap s))
          [0..<len1 t_v] s1 = (s', True)" by blast
  then show ?thesis
    using mk args(3) g by (simp add: evolve_ds_loc_def alloc_eq s1_def [symmetric])
qed

lemma evolve_ds_psd_returns:
  assumes args: "get_dict s As = Some As_v" "get_list3 s CE = Some CE_v" "get_arr1 s K = Some K_v"
      "get_floats s cn = Some cn_v" "get_arr2 s X = Some X_v" "get_arr2 s Y = Some Y_v"
      "get_arr1 s t = Some t_v" "get_list2 s COS = Some COS_v"
    and cos: "COS_cell K_v X_v (len1 K_v) = Some COS_v"
    and grid: "grid_ok X_v Y_v"
    and tab: "tables_ok As_v CE_v (len1 K_v) X_v" and cn: "len1 K_v \<le> length cn_v"
  shows "snd (evolve_ds_psd COS s As CE K cn sigma X Y t) = Some (length (heap s))"
proof -
  from make_coords_total [OF args(7,5,6) grid, of 1] obtain yc xc where
    mk: "make_coords s 1 X Y t = Some (t_v, yc, xc)"
    and sh: "len1 yc = nrows X_v" "len1 xc = ncols X_v" by blast
  define s1 where "s1 = s\<lparr>heap := heap s @ [Dataset (new_dataset t_v yc xc)]\<rparr>"
  have sa: "same_args s s1" unfolding s1_def by (rule same_args_ext)
  then have g: "get_dict s1 = get_dict s" "get_list3 s1 = get_list3 s" "get_arr1 s1 = get_arr1 s"
    "get_floats s1 = get_floats s" "get_list2 s1 = get_list2 s"
    by (simp_all add: same_args_def)
  have "\<exists>s'. time_loop False (psd_body COS As CE K cn sigma t (len1 K_v)) (length (heap s))
          [0..<len1 t_v] s1 = (s', True)"
  proof (rule loop_returns [OF mk s1_def psd_body_stable])
    fix i assume "i < len1 t_v"
    then show "\<exists>T0. psd_body COS As CE K cn sigma t (len1 K_v) s1 i = Some T0 \<and>
                 shape_ok (len1 yc) (len1 xc) T0"
      unfolding sh
      by (intro psd_body_total [OF _ _ _ _ _ _ cos tab cn]) (simp_all add: g args)
  qed
  then obtain s' where "time_loop False (psd_body COS As CE K cn sigma t (len1 K_v))
          (length (heap s)) [0..<len1 t_v] s1 = (s', True)" by blast
  then show ?thesis
    using mk args(3) g by (simp add: evolve_ds_psd_def alloc_eq s1_def [symmetric])
qed

lemma evolve_ds_sm2_returns:
  assumes args: "get_dict s As = Some As_v" "get_list3 s CE = Some CE_v"
      "get_arr2 s X = Some X_v" "get_arr2 s Y = Some Y_v" "get_arr1 s t = Some t_v"
    and grid: "grid_ok X_v Y_v"
    and tab: "tables_ok As_v CE_v 1 X_v"
  shows "snd (evolve_ds_sm2 s As CE k X Y t) = Some (length (heap s))"
proof -
  from make_coords_total [OF args(5,3,4) grid, of 2] obtain yc xc where
    mk: "make_coords s 2 X Y t = Some (t_v, yc, xc)"
    and sh: "len1 yc = nrows X_v" "len1 xc = ncols X_v" by blast
  define s1 where "s1 = s\<lparr>heap := heap s @ [Dataset (new_dataset t_v yc xc)]\<rparr>"
  have sa: "same_args s s1" unfolding s1_def by (rule same_args_ext)
  then have g: "get_dict s1 = get_dict s" "get_list3 s1 = get_list3 s" "get_arr1 s1 = get_arr1 s"
    "get_arr2 s1 = get_arr2 s"
    by (simp_all add: same_args_def)
  have "\<exists>s'. time_loop False (sm2_body As CE k X t) (length (heap s)) [0..<len1 t_v] s1
          = (s', True)"
  proof (rule loop_returns [OF mk s1_def sm2_body_stable])
    fix i assume "i < len1 t_v"
    then show "\<exists>T0. sm2_body As CE k X t s1 i = Some T0 \<and> shape_ok (len1 yc) (len1 xc) T0"
      unfolding sh
      by (intro sm2_body_total [OF _ _ _ _ tab]) (simp_all add: g args)
  qed
  then obtain s' where "time_loop False (sm2_body As CE k X t) (length (heap s))
          [0..<len1 t_v] s1 = (s', True)" by blast
  then show ?thesis
    using mk by (simp add: evolve_ds_sm2_def alloc_eq s1_def [symmetric])
qed

subsection \<open>The small call, evaluated\<close>

lemma str_0: "str 0 = ''0''" by (simp add: str.simps digit_char_def)
lemma str_2: "str 2 = ''2''" by (simp add: str.simps digit_char_def)

lemma ex_getters:
  "get_dict ex_state 0 = Some ex_As" "get_list3 ex_state 1 = Some ex_CE"
  "get_arr1 ex_state 2 = Some ex_K" "get_floats ex_state 3 = Some ex_cn"
  "get_arr2 ex_state 4 = Some ex_X" "get_arr2 ex_state 5 = Some ex_Y"
  "get_arr1 ex_state 6 = Some ex_t" "get_list2 ex_state 7 = Some ex_COS"
  by (simp_all add: ex_state_def get_dict_def get_list3_def get_arr1_def get_floats_def
        get_arr2_def get_list2_def deref_def)

lemma ex_COS_cell: "COS_cell ex_K ex_X 2 = Some ex_COS"
  by (simp add: COS_cell_def ex_COS_def ex_K_def index1_def py_index_def upt_rec numeral_2_eq_2)

lemma sum_lessThan_2: "(\<Sum>k<2. f k) = f 0 + f (Suc 0)" for f :: "nat \<Rightarrow> complex"
  by (simp add: numeral_2_eq_2)

lemma ex_ivp_sum: "ivp_sum ex_As ex_CE ex_K ex_cn ex_X ex_t 0 0 0 = 13 / 4"
  by (simp add: ivp_sum_def ex_As_def ex_CE_def ex_K_def ex_cn_def ex_X_def ex_t_def
        coef_A0_def eig_a_def str_0 str_2 sum_lessThan_2)

lemma ex_mode_sum: "mode_sum ex_As ex_CE (1 / 2) ex_X ex_t 0 0 0 = 5 / 2"
  by (simp add: mode_sum_def ex_As_def ex_CE_def ex_X_def ex_t_def
        last_A0_def last_a_def str_0 str_2 sum_lessThan_2)

lemmas ex_defs = ex_state_def ex_As_def ex_CE_def ex_K_def ex_cn_def ex_X_def ex_Y_def ex_t_def ex_COS_def

lemmas run_defs = make_coords_def get_arr1_def get_arr2_def get_dict_def get_list3_def get_floats_def
    get_list2_def get_dataset_def deref_def column0_def row0_def alloc_def new_dataset_def
    k_sum_def wavenumber_term_def harmonic_term_def lookup_A0_def lookup_a_def
    index2_def index1_def py_index_def list_index_def plane_def scale1_def scale2_def mul2_def add2_def
    same_shape_def assign_slice_def str_0 str_2 upt_rec

lemma ex_psd_returns: "snd (evolve_ds_psd 7 ex_state 0 1 2 3 (1 / 2) 4 5 6) = Some 8"
  by (simp add: evolve_ds_psd_def psd_body_def run_defs ex_defs)


lemma ex_sm2_returns: "snd (evolve_ds_sm2 ex_state 0 1 (1 / 2) 4 5 6) = Some 8"
  by (simp add: evolve_ds_sm2_def sm2_body_def harmonic_term_last_def run_defs ex_defs)

lemma ex_grid_ok: "grid_ok ex_X ex_Y"
  by (simp add: grid_ok_def ex_X_def ex_Y_def)

lemma ex_tables_ok: "tables_ok ex_As ex_CE 2 ex_X" "tables_ok ex_As ex_CE 1 ex_X"
  by (simp_all add: tables_ok_def ex_As_def ex_CE_def ex_X_def less_Suc_eq numeral_2_eq_2
        str_0 str_2 [unfolded numeral_2_eq_2])

subsection \<open>The synthesis formula\<close>

text \<open>C2 (as stated, refuted): the \<open>evolve_ds\<close> of the plane-shear notebook does not return
  the real part of the double sum. On the small call, with \<open>sigma = 1/2\<close>, the double sum at
  time index 0 and grid point (0, 0) is \<open>13/4\<close>, and the returned \<open>Theta\<close> holds \<open>13/16\<close>
  there.\<close>

theorem evolve_ds_psd_not_formula:
  "snd (evolve_ds_psd 7 ex_state 0 1 2 3 (1 / 2) 4 5 6) = Some 8 \<and>
   returned_Theta (evolve_ds_psd 7 ex_state 0 1 2 3 (1 / 2) 4 5 6) 0 0 0 = Some (Val (13 / 16)) \<and>
   Re (ivp_sum ex_As ex_CE ex_K ex_cn ex_X ex_t 0 0 0) = 13 / 4 \<and>
   returned_Theta (evolve_ds_psd 7 ex_state 0 1 2 3 (1 / 2) 4 5 6) 0 0 0
     \<noteq> Some (Val (Re (ivp_sum ex_As ex_CE ex_K ex_cn ex_X ex_t 0 0 0)))"
proof -
  have th: "returned_Theta (evolve_ds_psd 7 ex_state 0 1 2 3 (1 / 2) 4 5 6) 0 0 0
              = Some (Val (13 / 16))"
    by (simp add: returned_Theta_def evolve_ds_psd_def psd_body_def run_defs ex_defs
          power2_eq_square)
  show ?thesis using th ex_psd_returns by (simp add: ex_ivp_sum)
qed

text \<open>C2 (amended): for every call of \<open>evolve_ds\<close> that returns, the value of \<open>Theta\<close> at
  the time index \<open>i\<close> and the grid point \<open>(j, l)\<close> is
  \<^item> in the localized notebook, the real part of the double sum over the wavenumbers \<open>k\<close>
    and the harmonics \<open>2 r\<close> of
    \<open>cn[k] * 2 A\<^sup>(\<^sup>2\<^sup>r\<^sup>)\<^sub>0(q\<^sub>k) * ce\<^sub>2\<^sub>r(y; q\<^sub>k) * exp(i k x) * exp(-(a\<^sub>2\<^sub>r/4 + k\<^sup>2) t[i])\<close>;
  \<^item> in the plane-shear notebook, \<open>sigma\<^sup>2\<close> times that real part;
  \<^item> in the single-mode notebook, whose \<open>evolve_ds\<close> takes one wavenumber \<open>k\<close> and no
    \<open>cn\<close>, the real part of the sum over the harmonics of
    \<open>2 A\<^sup>(\<^sup>2\<^sup>r\<^sup>)\<^sub>0(q) * ce\<^sub>2\<^sub>r(y; q) * exp(i k x) * exp(-(a\<^sub>2\<^sub>r/4 + k\<^sup>2) t[i])\<close> at the last
    sample \<open>q\<close> of the batch.

  For the first two, the global \<open>COS\<close> is what the notebook's cell computes from \<open>K\<close> and
  \<open>X\<close>. A call with well-shaped arguments returns.\<close>

theorem evolve_ds_synthesis:
  assumes "get_dict s As = Some As_v" "get_list3 s CE = Some CE_v" "get_arr2 s X = Some X_v"
    "get_arr2 s Y = Some Y_v" "get_arr1 s t = Some t_v"
    and "i < len1 t_v" "j < nrows Y_v" "l < ncols X_v"
  shows
    "(get_arr1 s K = Some K_v \<and> get_floats s cn = Some cn_v \<and> get_list2 s COS = Some COS_v \<and>
      COS_cell K_v X_v n = Some COS_v \<longrightarrow>
        (snd (evolve_ds_loc COS s As CE K cn sigma X Y t) \<noteq> None \<longrightarrow>
           returned_Theta (evolve_ds_loc COS s As CE K cn sigma X Y t) i j l
             = Some (Val (Re (ivp_sum As_v CE_v K_v cn_v X_v t_v i j l)))) \<and>
        (snd (evolve_ds_psd COS s As CE K cn sigma X Y t) \<noteq> None \<longrightarrow>
           returned_Theta (evolve_ds_psd COS s As CE K cn sigma X Y t) i j l
             = Some (Val (sigma\<^sup>2 * Re (ivp_sum As_v CE_v K_v cn_v X_v t_v i j l)))) \<and>
        (n = len1 K_v \<and> grid_ok X_v Y_v \<and> tables_ok As_v CE_v (len1 K_v) X_v \<and>
         len1 K_v \<le> length cn_v \<longrightarrow>
           snd (evolve_ds_loc COS s As CE K cn sigma X Y t) \<noteq> None \<and>
           snd (evolve_ds_psd COS s As CE K cn sigma X Y t) \<noteq> None)) \<and>
     (snd (evolve_ds_sm2 s As CE k X Y t) \<noteq> None \<longrightarrow>
        returned_Theta (evolve_ds_sm2 s As CE k X Y t) i j l
          = Some (Val (Re (mode_sum As_v CE_v k X_v t_v i j l)))) \<and>
     (grid_ok X_v Y_v \<and> tables_ok As_v CE_v 1 X_v \<longrightarrow>
        snd (evolve_ds_sm2 s As CE k X Y t) \<noteq> None)"
proof -
  have loc: "returned_Theta (evolve_ds_loc COS s As CE K cn sigma X Y t) i j l
               = Some (Val (Re (ivp_sum As_v CE_v K_v cn_v X_v t_v i j l)))"
    if "get_arr1 s K = Some K_v" "get_floats s cn = Some cn_v" "get_list2 s COS = Some COS_v"
      "COS_cell K_v X_v n = Some COS_v" "snd (evolve_ds_loc COS s As CE K cn sigma X Y t) \<noteq> None"
    using evolve_ds_loc_Theta [OF that(5) assms(1,2) that(1,2) assms(3,5) that(3,4) assms(6)] .
  have psd: "returned_Theta (evolve_ds_psd COS s As CE K cn sigma X Y t) i j l
               = Some (Val (sigma\<^sup>2 * Re (ivp_sum As_v CE_v K_v cn_v X_v t_v i j l)))"
    if "get_arr1 s K = Some K_v" "get_floats s cn = Some cn_v" "get_list2 s COS = Some COS_v"
      "COS_cell K_v X_v n = Some COS_v" "snd (evolve_ds_psd COS s As CE K cn sigma X Y t) \<noteq> None"
    using evolve_ds_psd_Theta [OF that(5) assms(1,2) that(1,2) assms(3,5) that(3,4) assms(6)] .
  have ret: "snd (evolve_ds_loc COS s As CE K cn sigma X Y t) \<noteq> None \<and>
             snd (evolve_ds_psd COS s As CE K cn sigma X Y t) \<noteq> None"
    if "get_arr1 s K = Some K_v" "get_floats s cn = Some cn_v" "get_list2 s COS = Some COS_v"
      "COS_cell K_v X_v n = Some COS_v" "n = len1 K_v" "grid_ok X_v Y_v"
      "tables_ok As_v CE_v (len1 K_v) X_v" "len1 K_v \<le> length cn_v"
    using evolve_ds_loc_returns [OF assms(1,2) that(1,2) assms(3,4,5) that(3)
        that(4) [unfolded that(5)] that(6,7,8)]
      evolve_ds_psd_returns [OF assms(1,2) that(1,2) assms(3,4,5) that(3)
        that(4) [unfolded that(5)] that(6,7,8)]
    by simp
  have sm2: "returned_Theta (evolve_ds_sm2 s As CE k X Y t) i j l
               = Some (Val (Re (mode_sum As_v CE_v k X_v t_v i j l)))"
    if "snd (evolve_ds_sm2 s As CE k X Y t) \<noteq> None"
    using evolve_ds_sm2_Theta [OF that assms(1,2,3,5,6)] .
  have ret2: "snd (evolve_ds_sm2 s As CE k X Y t) \<noteq> None"
    if "grid_ok X_v Y_v" "tables_ok As_v CE_v 1 X_v"
    using evolve_ds_sm2_returns [OF assms(1,2,3,4,5) that] by simp
  show ?thesis using loc psd ret sm2 ret2 by blast
qed

theorem evolve_ds_synthesis_witness:
  "get_dict ex_state 0 = Some ex_As \<and> get_list3 ex_state 1 = Some ex_CE \<and>
   get_arr1 ex_state 2 = Some ex_K \<and> get_floats ex_state 3 = Some ex_cn \<and>
   get_arr2 ex_state 4 = Some ex_X \<and> get_arr2 ex_state 5 = Some ex_Y \<and>
   get_arr1 ex_state 6 = Some ex_t \<and> get_list2 ex_state 7 = Some ex_COS \<and>
   COS_cell ex_K ex_X 2 = Some ex_COS \<and> len1 ex_K = 2 \<and> grid_ok ex_X ex_Y \<and>
   tables_ok ex_As ex_CE 2 ex_X \<and> tables_ok ex_As ex_CE 1 ex_X \<and> len1 ex_K \<le> length ex_cn \<and>
   0 < len1 ex_t \<and> 0 < nrows ex_Y \<and> 0 < ncols ex_X \<and>
   snd (evolve_ds_loc 7 ex_state 0 1 2 3 (1 / 2) 4 5 6) \<noteq> None \<and>
   returned_Theta (evolve_ds_loc 7 ex_state 0 1 2 3 (1 / 2) 4 5 6) 0 0 0 = Some (Val (13 / 4)) \<and>
   snd (evolve_ds_psd 7 ex_state 0 1 2 3 (1 / 2) 4 5 6) \<noteq> None \<and>
   returned_Theta (evolve_ds_psd 7 ex_state 0 1 2 3 (1 / 2) 4 5 6) 0 0 0 = Some (Val (13 / 16)) \<and>
   snd (evolve_ds_sm2 ex_state 0 1 (1 / 2) 4 5 6) \<noteq> None \<and>
   returned_Theta (evolve_ds_sm2 ex_state 0 1 (1 / 2) 4 5 6) 0 0 0 = Some (Val (5 / 2))"
proof -
  have b: "0 < len1 ex_t" "0 < nrows ex_Y" "0 < ncols ex_X"
    by (simp_all add: ex_t_def ex_Y_def ex_X_def)
  have K: "len1 ex_K = 2" "len1 ex_K \<le> length ex_cn" by (simp_all add: ex_K_def ex_cn_def)
  note th = evolve_ds_synthesis [OF ex_getters(1) ex_getters(2) ex_getters(5) ex_getters(6)
      ex_getters(7) b, where K = 2 and K_v = ex_K and cn = 3 and cn_v = ex_cn and COS = 7
      and COS_v = ex_COS and n = 2 and sigma = "1 / 2" and k = "1 / 2"]
  show ?thesis
    using th ex_getters ex_COS_cell b K ex_grid_ok ex_tables_ok
    by (simp add: ex_ivp_sum ex_mode_sum power2_eq_square)
qed

subsection \<open>The frame of a call\<close>



end
